theory Spec2Isabelle
  imports Main "HOL-Library.Sublist"
begin

section \<open>Strings of the platform\<close>

text \<open>
  The functions under verification are the e-mail helpers and the webhook handler
  \<open>processEmailTask\<close> of the cloud functions of the task manager, in the version that
  sanitises its input. A string of the program is a \<^typ>\<open>string\<close>: a list of code
  units, here the code units U+0000 to U+00FF.
  The definitions of this section are the string operations of the platform that the
  source calls: \<open>trim\<close>, \<open>toLowerCase\<close>, \<open>substring(0, n)\<close> (which is \<^const>\<open>take\<close>)
  and \<open>includes\<close>.
\<close>

definition code :: "char \<Rightarrow> nat" where
  "code c = of_char c"

definition is_ws :: "char \<Rightarrow> bool" where
  \<comment> \<open>white space and line terminators, the class \<open>\s\<close> and what \<open>trim\<close> removes\<close>
  "is_ws c = (code c = 9 \<or> code c = 10 \<or> code c = 11 \<or> code c = 12 \<or> code c = 13
              \<or> code c = 32 \<or> code c = 160)"

definition is_line_term :: "char \<Rightarrow> bool" where
  "is_line_term c = (code c = 10 \<or> code c = 13)"

definition is_digit :: "char \<Rightarrow> bool" where
  "is_digit c = (48 \<le> code c \<and> code c \<le> 57)"

definition is_upper :: "char \<Rightarrow> bool" where
  "is_upper c = (65 \<le> code c \<and> code c \<le> 90)"

definition is_lower :: "char \<Rightarrow> bool" where
  "is_lower c = (97 \<le> code c \<and> code c \<le> 122)"

definition is_alpha :: "char \<Rightarrow> bool" where
  "is_alpha c = (is_upper c \<or> is_lower c)"

definition is_control :: "char \<Rightarrow> bool" where
  \<comment> \<open>the class \<open>[\x00-\x1F\x7F]\<close>\<close>
  "is_control c = (code c \<le> 31 \<or> code c = 127)"

definition is_angle :: "char \<Rightarrow> bool" where
  \<comment> \<open>the class \<open>[<>]\<close>\<close>
  "is_angle c = (c = CHR ''<'' \<or> c = CHR ''>'')"

definition lower_char :: "char \<Rightarrow> char" where
  \<comment> \<open>\<open>toLowerCase\<close> on one code unit below U+0100\<close>
  "lower_char c =
     (if is_upper c \<or> (192 \<le> code c \<and> code c \<le> 222 \<and> code c \<noteq> 215)
      then char_of (code c + 32) else c)"

definition toLowerCase :: "string \<Rightarrow> string" where
  "toLowerCase s = map lower_char s"

definition fold_char :: "char \<Rightarrow> char" where
  \<comment> \<open>the canonical form under the flag \<open>i\<close>, for comparison with an ASCII letter\<close>
  "fold_char c = (if is_upper c then char_of (code c + 32) else c)"

definition trim :: "string \<Rightarrow> string" where
  "trim s = rev (dropWhile is_ws (rev (dropWhile is_ws s)))"

definition includes_str :: "string \<Rightarrow> string \<Rightarrow> bool" where
  "includes_str s w = (\<exists>t \<in> set (suffixes s). prefix w t)"

section \<open>Regular expressions\<close>

text \<open>
  The source works through regular-expression literals. They are embedded as values of
  the datatype \<open>re\<close> and run by a backtracking matcher that returns the ways to match in
  the order in which the platform tries them: the first element is the match that
  \<open>exec\<close> reports. A position is the character before it (for \<open>^\<close>), the rest of the
  input and the groups captured so far. A flag \<open>i\<close> is put into the atoms
  (\<open>chr_ci\<close>), a flag \<open>m\<close> into the anchors.
\<close>

datatype re =
    Atom "char \<Rightarrow> bool"
  | Eps
  | Seq re re
  | Alt re re
  | Star re
  | Lazy re
  | Grp nat re
  | Bol bool
  | Eol bool
  | Ahead re

type_synonym caps = "(nat \<times> string) list"
type_synonym mstate = "char option \<times> string \<times> caps"

fun rmatch :: "re \<Rightarrow> mstate \<Rightarrow> mstate list" where
  "rmatch (Atom p) st =
     (case fst (snd st) of [] \<Rightarrow> []
      | x # xs \<Rightarrow> if p x then [(Some x, xs, snd (snd st))] else [])"
| "rmatch Eps st = [st]"
| "rmatch (Seq r1 r2) st = concat (map (rmatch r2) (rmatch r1 st))"
| "rmatch (Alt r1 r2) st = rmatch r1 st @ rmatch r2 st"
| "rmatch (Star r) st =
     concat (map (\<lambda>st'. if length (fst (snd st')) < length (fst (snd st))
                          then rmatch (Star r) st' else [])
                 (rmatch r st)) @ [st]"
| "rmatch (Lazy r) st =
     st # concat (map (\<lambda>st'. if length (fst (snd st')) < length (fst (snd st))
                               then rmatch (Lazy r) st' else [])
                      (rmatch r st))"
| "rmatch (Grp n r) st =
     map (\<lambda>st'. (fst st', fst (snd st'),
                  (n, take (length (fst (snd st)) - length (fst (snd st'))) (fst (snd st)))
                    # snd (snd st')))
         (rmatch r st)"
| "rmatch (Bol m) st =
     (case fst st of None \<Rightarrow> [st]
      | Some c \<Rightarrow> if m \<and> is_line_term c then [st] else [])"
| "rmatch (Eol m) st =
     (case fst (snd st) of [] \<Rightarrow> [st]
      | x # xs \<Rightarrow> if m \<and> is_line_term x then [st] else [])"
| "rmatch (Ahead r) st = (if rmatch r st = [] then [] else [st])"

definition chr :: "char \<Rightarrow> re" where
  "chr c = Atom (\<lambda>x. x = c)"

definition chr_ci :: "char \<Rightarrow> re" where
  "chr_ci c = Atom (\<lambda>x. fold_char x = fold_char c)"

definition lit :: "string \<Rightarrow> re" where
  "lit s = foldr (\<lambda>c r. Seq (chr c) r) s Eps"

definition lit_ci :: "string \<Rightarrow> re" where
  "lit_ci s = foldr (\<lambda>c r. Seq (chr_ci c) r) s Eps"

definition plus :: "re \<Rightarrow> re" where
  "plus r = Seq r (Star r)"

definition opt :: "re \<Rightarrow> re" where
  "opt r = Alt r Eps"

definition seqs :: "re list \<Rightarrow> re" where
  "seqs rs = foldr Seq rs Eps"

definition alts :: "re list \<Rightarrow> re" where
  \<comment> \<open>\<open>r1|r2|...|rn\<close>, for a list that is not empty\<close>
  "alts rs = foldr Alt (butlast rs) (last rs)"

definition dot :: re where
  "dot = Atom (\<lambda>c. \<not> is_line_term c)"

definition ws :: re where
  "ws = Atom is_ws"

definition digit :: re where
  "digit = Atom is_digit"

text \<open>
  \<open>rfind\<close> is \<open>exec\<close> without the flags \<open>g\<close> and \<open>y\<close>: the leftmost position where
  the expression matches, with the text before the match, the matched text, the groups
  and the text after it.
\<close>

fun rfind :: "re \<Rightarrow> char option \<Rightarrow> string \<Rightarrow> (string \<times> string \<times> caps \<times> string) option" where
  "rfind r p [] =
     (case rmatch r (p, [], []) of [] \<Rightarrow> None
      | st # _ \<Rightarrow> Some ([], [], snd (snd st), []))"
| "rfind r p (x # xs) =
     (case rmatch r (p, x # xs, []) of
        st # _ \<Rightarrow> Some ([], take (length (x # xs) - length (fst (snd st))) (x # xs),
                        snd (snd st), fst (snd st))
      | [] \<Rightarrow> (case rfind r (Some x) xs of None \<Rightarrow> None
               | Some (b, m, c, a) \<Rightarrow> Some (x # b, m, c, a)))"

definition test :: "re \<Rightarrow> string \<Rightarrow> bool" where
  "test r s = (rfind r None s \<noteq> None)"

definition rexec :: "re \<Rightarrow> string \<Rightarrow> caps option" where
  \<comment> \<open>\<open>s.match(r)\<close> for an expression without the flag \<open>g\<close>: the groups, or null\<close>
  "rexec r s = (case rfind r None s of None \<Rightarrow> None | Some (b, m, c, a) \<Rightarrow> Some c)"

definition group :: "caps \<Rightarrow> nat \<Rightarrow> string option" where
  "group c n = map_of c n"

definition replace_first :: "re \<Rightarrow> string \<Rightarrow> string \<Rightarrow> string" where
  \<comment> \<open>\<open>s.replace(r, rep)\<close> for an expression without the flag \<open>g\<close>\<close>
  "replace_first r rep s =
     (case rfind r None s of None \<Rightarrow> s | Some (b, m, c, a) \<Rightarrow> b @ rep @ a)"

text \<open>
  \<open>s.replace(r, rep)\<close> with the flag \<open>g\<close>: every match from left to right, the search
  going on where the last match ended, one character further after an empty match.
  The counter is the number of characters of the current match still to drop.
\<close>

fun rreplace :: "re \<Rightarrow> string \<Rightarrow> char option \<Rightarrow> nat \<Rightarrow> string \<Rightarrow> string" where
  "rreplace r rep p k [] = (if k = 0 \<and> rmatch r (p, [], []) \<noteq> [] then rep else [])"
| "rreplace r rep p k (x # xs) =
     (if 0 < k then rreplace r rep (Some x) (k - 1) xs
      else case rmatch r (p, x # xs, []) of
             [] \<Rightarrow> x # rreplace r rep (Some x) 0 xs
           | st # _ \<Rightarrow>
               (let n = length (x # xs) - length (fst (snd st))
                in if n = 0 then rep @ x # rreplace r rep (Some x) 0 xs
                   else rep @ rreplace r rep (Some x) (n - 1) xs))"

definition replace_all :: "re \<Rightarrow> string \<Rightarrow> string \<Rightarrow> string" where
  "replace_all r rep s = rreplace r rep None 0 s"

text \<open>
  \<open>s.split(r)\<close> for an expression without groups: the pieces between the matches; a
  match that is empty and starts where the last piece started does not split.
\<close>

fun rsplit :: "re \<Rightarrow> char option \<Rightarrow> nat \<Rightarrow> string \<Rightarrow> string \<Rightarrow> string list" where
  "rsplit r p k acc [] = [rev acc]"
| "rsplit r p k acc (x # xs) =
     (if 0 < k then rsplit r (Some x) (k - 1) acc xs
      else case rmatch r (p, x # xs, []) of
             [] \<Rightarrow> rsplit r (Some x) 0 (x # acc) xs
           | st # _ \<Rightarrow>
               (let n = length (x # xs) - length (fst (snd st))
                in if n = 0
                   then (if acc = [] then rsplit r (Some x) 0 [x] xs
                         else rev acc # rsplit r (Some x) 0 [x] xs)
                   else rev acc # rsplit r (Some x) (n - 1) [] xs))"

definition split :: "re \<Rightarrow> string \<Rightarrow> string list" where
  "split r s =
     (if s = [] then (if rmatch r (None, [], []) \<noteq> [] then [] else [[]])
      else rsplit r None 0 [] s)"

section \<open>Sanitisation and validation\<close>

definition emailRegex :: re where
  \<comment> \<open>\<open>/^[a-zA-Z0-9._%+-]+@[a-zA-Z0-9.-]+\.[a-zA-Z]{2,}$/\<close>\<close>
  "emailRegex =
     seqs [Bol False,
           plus (Atom (\<lambda>c. is_alpha c \<or> is_digit c \<or> c \<in> set ''._%+-'')),
           chr CHR ''@'',
           plus (Atom (\<lambda>c. is_alpha c \<or> is_digit c \<or> c \<in> set ''.-'')),
           chr CHR ''.'',
           Atom is_alpha, Atom is_alpha, Star (Atom is_alpha),
           Eol False]"

definition validateAndSanitizeEmail :: "string \<Rightarrow> string option" where
  "validateAndSanitizeEmail email =
     (if email = [] then None
      else let cleaned = toLowerCase (trim email)
           in if \<not> test emailRegex cleaned then None
              else if 254 < length cleaned then None
              else Some cleaned)"

definition userIdRegex :: re where
  \<comment> \<open>\<open>/^([^@]+)@/\<close>\<close>
  "userIdRegex = seqs [Bol False, Grp 1 (plus (Atom (\<lambda>c. c \<noteq> CHR ''@''))), chr CHR ''@'']"

definition extractUserIdFromEmail :: "string \<Rightarrow> string option" where
  "extractUserIdFromEmail emailAddress =
     (case validateAndSanitizeEmail emailAddress of
        None \<Rightarrow> None
      | Some sanitizedEmail \<Rightarrow>
          (case rexec userIdRegex sanitizedEmail of
             None \<Rightarrow> None
           | Some m \<Rightarrow> group m 1))"

definition sanitizeSubject :: "string \<Rightarrow> string" where
  "sanitizeSubject subject =
     (if subject = [] then ''Email Task''
      else let cleaned =
                 take 200 (trim (replace_all (Atom is_control) []
                                   (replace_all (Atom is_angle) [] subject)))
           in if cleaned = [] then ''Email Task'' else cleaned)"

definition sanitizeTextContent :: "string \<Rightarrow> string" where
  "sanitizeTextContent text =
     (if text = [] then []
      else take 5000 (trim
             (replace_all (lit ''&#39;'') [CHR 0x27]
             (replace_all (lit ''&gt;'') ''>''
             (replace_all (lit ''&lt;'') ''<''
             (replace_all (lit ''&amp;'') ''&''
             (replace_all (lit ''&quot;'') [CHR 0x22]
             (replace_all (Atom is_control) []
             (replace_all (Atom is_angle) [] text)))))))))"

section \<open>Dates of the platform\<close>

text \<open>
  A \<open>Date\<close> holds a time value, the milliseconds since the epoch in UTC, or no number
  (an invalid date). The day and month arithmetic is the one of the language standard.
  The clock of a request is the time value that \<open>new Date()\<close> reads and the offset of
  local time from UTC, taken as fixed while a request is processed: the same offset
  applies to the instant of processing and to the date seven days later, so a change of
  daylight saving time between the two is outside the model.
\<close>

datatype jsdate = Invalid_Date | Time int

record clock =
  now :: int
  tza :: int

definition msPerDay :: int where
  "msPerDay = 86400000"

definition Day :: "int \<Rightarrow> int" where
  "Day t = t div msPerDay"

definition TimeWithinDay :: "int \<Rightarrow> int" where
  "TimeWithinDay t = t mod msPerDay"

definition DaysInYear :: "int \<Rightarrow> int" where
  "DaysInYear y =
     (if y mod 4 \<noteq> 0 then 365 else if y mod 100 \<noteq> 0 then 366
      else if y mod 400 \<noteq> 0 then 365 else 366)"

definition DayFromYear :: "int \<Rightarrow> int" where
  "DayFromYear y =
     365 * (y - 1970) + (y - 1969) div 4 - (y - 1901) div 100 + (y - 1601) div 400"

definition YearFromDay :: "int \<Rightarrow> int" where
  \<comment> \<open>the year \<open>y\<close> with \<open>DayFromYear y \<le> d < DayFromYear (y + 1)\<close>\<close>
  "YearFromDay d =
     (let y = 1970 + (400 * d) div 146097
      in if d < DayFromYear y then y - 1
         else if DayFromYear (y + 1) \<le> d then y + 1 else y)"

definition YearFromTime :: "int \<Rightarrow> int" where
  "YearFromTime t = YearFromDay (Day t)"

definition InLeapYear :: "int \<Rightarrow> bool" where
  "InLeapYear t = (DaysInYear (YearFromTime t) = 366)"

definition DayWithinYear :: "int \<Rightarrow> int" where
  "DayWithinYear t = Day t - DayFromYear (YearFromTime t)"

definition month_start :: "bool \<Rightarrow> int \<Rightarrow> int" where
  \<comment> \<open>the day within the year on which month \<open>m\<close> (0 to 11) begins\<close>
  "month_start leap m =
     (if m = 0 then 0 else if m = 1 then 31
      else (if leap then 1 else 0) +
           (if m = 2 then 59 else if m = 3 then 90 else if m = 4 then 120
            else if m = 5 then 151 else if m = 6 then 181 else if m = 7 then 212
            else if m = 8 then 243 else if m = 9 then 273 else if m = 10 then 304
            else 334))"

definition MonthFromTime :: "int \<Rightarrow> int" where
  "MonthFromTime t =
     (let d = DayWithinYear t; l = (if InLeapYear t then 1 else 0)
      in if d < 31 then 0 else if d < 59 + l then 1 else if d < 90 + l then 2
         else if d < 120 + l then 3 else if d < 151 + l then 4 else if d < 181 + l then 5
         else if d < 212 + l then 6 else if d < 243 + l then 7 else if d < 273 + l then 8
         else if d < 304 + l then 9 else if d < 334 + l then 10 else 11)"

definition DateFromTime :: "int \<Rightarrow> int" where
  "DateFromTime t = DayWithinYear t - month_start (InLeapYear t) (MonthFromTime t) + 1"

definition MakeDay :: "int \<Rightarrow> int \<Rightarrow> int \<Rightarrow> int" where
  "MakeDay year month date =
     (let ym = year + month div 12; mn = month mod 12
      in DayFromYear ym + month_start (DaysInYear ym = 366) mn + date - 1)"

definition MakeDate :: "int \<Rightarrow> int \<Rightarrow> int" where
  "MakeDate day time = day * msPerDay + time"

definition TimeClip :: "int \<Rightarrow> jsdate" where
  "TimeClip t = (if 8640000000000000 < \<bar>t\<bar> then Invalid_Date else Time t)"

definition LocalTime :: "clock \<Rightarrow> int \<Rightarrow> int" where
  "LocalTime clk t = t + tza clk"

definition UTC :: "clock \<Rightarrow> int \<Rightarrow> int" where
  "UTC clk t = t - tza clk"

definition new_Date :: "clock \<Rightarrow> jsdate" where
  \<comment> \<open>\<open>new Date()\<close>\<close>
  "new_Date clk = TimeClip (now clk)"

definition getDate :: "clock \<Rightarrow> int \<Rightarrow> int" where
  \<comment> \<open>\<open>getDate()\<close> of a valid date: the day of the month in local time\<close>
  "getDate clk t = DateFromTime (LocalTime clk t)"

definition setDate :: "clock \<Rightarrow> int \<Rightarrow> int \<Rightarrow> jsdate" where
  \<comment> \<open>\<open>setDate(dt)\<close> on a valid date with time value \<open>t\<close>; local time before and
      after the change is taken with the one offset of the clock\<close>
  "setDate clk t dt =
     (let lt = LocalTime clk t;
          newDate = MakeDate (MakeDay (YearFromTime lt) (MonthFromTime lt) dt) (TimeWithinDay lt)
      in TimeClip (UTC clk newDate))"

definition add_days :: "clock \<Rightarrow> int \<Rightarrow> jsdate" where
  \<comment> \<open>\<open>const d = new Date(); d.setDate(d.getDate() + n); return d\<close>\<close>
  "add_days clk n =
     (case new_Date clk of Invalid_Date \<Rightarrow> Invalid_Date
      | Time t \<Rightarrow> setDate clk t (getDate clk t + n))"

definition digits_val :: "string \<Rightarrow> int" where
  "digits_val s = foldl (\<lambda>a c. 10 * a + (int (code c) - 48)) 0 s"

definition new_Date_string :: "string \<Rightarrow> jsdate" where
  \<comment> \<open>\<open>new Date(s)\<close> for a text \<open>dddd-dd-dd\<close>, the only texts the source passes: the
      date-only form of the standard, read as UTC. The engine of the platform takes months
      1 to 12 and days 1 to 31 (a day beyond the end of the month runs into the next
      month); every other number gives an invalid date.\<close>
  "new_Date_string s =
     (if length s = 10 \<and> list_all is_digit (take 4 s) \<and> s ! 4 = CHR ''-''
         \<and> list_all is_digit (take 2 (drop 5 s)) \<and> s ! 7 = CHR ''-''
         \<and> list_all is_digit (drop 8 s)
      then let y = digits_val (take 4 s); m = digits_val (take 2 (drop 5 s));
               d = digits_val (drop 8 s)
           in if 1 \<le> m \<and> m \<le> 12 \<and> 1 \<le> d \<and> d \<le> 31
              then TimeClip (MakeDate (MakeDay y (m - 1) d) 0)
              else Invalid_Date
      else Invalid_Date)"

section \<open>The task extractor\<close>

record EmailMessage =
  e_from :: string
  e_to :: string
  e_subject :: string
  e_text :: "string option"
  e_html :: "string option"
  e_receivedAt :: jsdate

record EmailSource =
  sender :: string
  receivedAt :: jsdate
  originalSubject :: string

record EmailTask =
  title :: string
  description :: string
  area :: string
  importance :: int
  dueDate :: "jsdate option"
  emailSource :: EmailSource

datatype error = TypeError | RangeError

definition dueRegex :: re where
  \<comment> \<open>\<open>/due:\s*(\d{4}-\d{2}-\d{2})/i\<close>\<close>
  "dueRegex =
     seqs [lit_ci ''due:'', Star ws,
           Grp 1 (seqs [digit, digit, digit, digit, chr CHR ''-'', digit, digit,
                        chr CHR ''-'', digit, digit])]"

definition tomorrowRegex :: re where
  "tomorrowRegex = lit_ci ''tomorrow''"

definition nextWeekRegex :: re where
  "nextWeekRegex = lit_ci ''next week''"

definition extractDueDateFromSubject :: "clock \<Rightarrow> string \<Rightarrow> jsdate option" where
  "extractDueDateFromSubject clk subject =
     (case rexec dueRegex subject of
        Some dueMatch \<Rightarrow>
          Some (case group dueMatch 1 of None \<Rightarrow> Invalid_Date | Some g \<Rightarrow> new_Date_string g)
      | None \<Rightarrow>
          if test tomorrowRegex subject then Some (add_days clk 1)
          else if test nextWeekRegex subject then Some (add_days clk 7)
          else None)"

definition urgentRegex :: re where
  "urgentRegex = alts [lit_ci ''urgent'', lit_ci ''asap'', lit_ci ''immediate'']"

definition highRegex :: re where
  "highRegex = alts [lit_ci ''high'', lit_ci ''important'']"

definition lowRegex :: re where
  "lowRegex = alts [lit_ci ''low'', lit_ci ''minor'']"

definition extractImportanceFromSubject :: "string \<Rightarrow> int" where
  "extractImportanceFromSubject subject =
     (if test urgentRegex subject then 9
      else if test highRegex subject then 7
      else if test lowRegex subject then 3
      else 5)"

definition tagRegex :: re where
  \<comment> \<open>\<open>/<[^>]*>/g\<close>\<close>
  "tagRegex = seqs [chr CHR ''<'', Star (Atom (\<lambda>c. c \<noteq> CHR ''>'')), chr CHR ''>'']"

definition headersRegex :: re where
  \<comment> \<open>\<open>/^.*?(?=From:|To:|Subject:|Date:|Sent:|Cc:|Bcc:)/gim\<close>\<close>
  "headersRegex =
     seqs [Bol True, Lazy dot,
           Ahead (alts [lit_ci ''From:'', lit_ci ''To:'', lit_ci ''Subject:'', lit_ci ''Date:'',
                        lit_ci ''Sent:'', lit_ci ''Cc:'', lit_ci ''Bcc:''])]"

definition quoteLineRegex :: re where
  \<comment> \<open>\<open>/^>.*$/gm\<close>\<close>
  "quoteLineRegex = seqs [Bol True, chr CHR ''>'', Star dot, Eol True]"

definition signatureRegex :: re where
  \<comment> \<open>\<open>/--\s*\n.*$/m\<close>\<close>
  "signatureRegex = seqs [lit ''--'', Star ws, chr CHR 0x0A, Star dot, Eol True]"

definition forwardRegex :: re where
  \<comment> \<open>\<open>/^.*?(?=Original Message|From:|Sent:)/gim\<close>\<close>
  "forwardRegex =
     seqs [Bol True, Lazy dot,
           Ahead (alts [lit_ci ''Original Message'', lit_ci ''From:'', lit_ci ''Sent:''])]"

definition blankLinesRegex :: re where
  \<comment> \<open>\<open>/\n\s*\n/g\<close>\<close>
  "blankLinesRegex = seqs [chr CHR 0x0A, Star ws, chr CHR 0x0A]"

definition lineTrimRegex :: re where
  \<comment> \<open>\<open>/^\s+|\s+$/gm\<close>\<close>
  "lineTrimRegex = Alt (seqs [Bol True, plus ws]) (seqs [plus ws, Eol True])"

definition cleanEmailBody :: "string \<Rightarrow> string" where
  "cleanEmailBody body =
     (let textOnly = replace_all tagRegex [] body;
          withoutHeaders = replace_all headersRegex [] textOnly;
          withoutQuotes = replace_all quoteLineRegex [] withoutHeaders;
          withoutSignature = replace_first signatureRegex [] withoutQuotes;
          withoutForwardMarkers = replace_all forwardRegex [] withoutSignature;
          cleaned = trim (replace_all lineTrimRegex []
                      (replace_all blankLinesRegex [CHR 0x0A, CHR 0x0A] withoutForwardMarkers));
          fallback = (if cleaned = [] then ''No description provided'' else cleaned)
      in if length cleaned < 50
         then (case find (\<lambda>p. 20 < length (trim p)) (split blankLinesRegex textOnly) of
                 Some firstParagraph \<Rightarrow>
                   (if trim firstParagraph = [] then ''No description provided''
                    else trim firstParagraph)
               | None \<Rightarrow> fallback)
         else fallback)"

definition prefixRegex :: re where
  \<comment> \<open>\<open>/^(Fwd|Re|Fw|Forward|Reply):\s*/i\<close>\<close>
  "prefixRegex =
     seqs [Bol False,
           Grp 1 (alts [lit_ci ''Fwd'', lit_ci ''Re'', lit_ci ''Fw'', lit_ci ''Forward'',
                        lit_ci ''Reply'']),
           chr CHR '':'', Star ws]"

definition cleanSubject_of :: "string \<Rightarrow> string" where
  \<comment> \<open>the constant \<open>cleanSubject\<close> of \<open>parseEmailToTask\<close>, from \<open>email.subject\<close>\<close>
  "cleanSubject_of subject =
     (let rawSubject = sanitizeSubject subject;
          stripped = trim (replace_first prefixRegex [] rawSubject)
      in if stripped = [] then ''Email Task'' else stripped)"

definition description_of :: "string option \<Rightarrow> string option \<Rightarrow> string" where
  \<comment> \<open>the field \<open>description\<close> that \<open>parseEmailToTask\<close> returns, from \<open>email.text\<close> and
      \<open>email.html\<close>\<close>
  "description_of text html =
     (let rawBody = (case text of Some t \<Rightarrow> if t \<noteq> [] then t
                                          else (case html of Some h \<Rightarrow> h | None \<Rightarrow> [])
                     | None \<Rightarrow> (case html of Some h \<Rightarrow> h | None \<Rightarrow> []));
          cleanedBody = cleanEmailBody rawBody;
          description = sanitizeTextContent cleanedBody
      in if description = [] then ''No description provided'' else description)"

text \<open>
  \<open>parseEmailToTask\<close> writes a log line before it returns; the line calls
  \<open>dueDate?.toISOString()\<close>, which raises a \<open>RangeError\<close> on an invalid date. That is
  the one way the function fails.
\<close>

definition parseEmailToTask :: "clock \<Rightarrow> EmailMessage \<Rightarrow> error + EmailTask" where
  "parseEmailToTask clk email =
     (let rawSubject = sanitizeSubject (e_subject email);
          cleanSubject = cleanSubject_of (e_subject email);
          dueDate = extractDueDateFromSubject clk cleanSubject;
          importance = extractImportanceFromSubject cleanSubject;
          sanitizedSender = (case validateAndSanitizeEmail (e_from email) of
                               Some s \<Rightarrow> s | None \<Rightarrow> ''unknown@sender.com'')
      in if dueDate = Some Invalid_Date then Inl RangeError
         else Inr \<lparr> title = cleanSubject,
                    description = description_of (e_text email) (e_html email),
                    area = ''inbox'',
                    importance = max 1 (min 10 (if importance = 0 then 5 else importance)),
                    dueDate = dueDate,
                    emailSource = \<lparr> sender = sanitizedSender,
                                      receivedAt = e_receivedAt email,
                                      originalSubject = rawSubject \<rparr> \<rparr>)"

section \<open>Request bodies\<close>

text \<open>
  A request body is a value of the data-interchange format: \<open>null\<close>, a truth value, a
  number (here an integer of any size: fractions are outside the model, and so is
  the rounding of the platform's numbers above \<open>2^53\<close>), a string, an array or an object. An object is the list of
  its own properties in the order in which \<open>Object.keys\<close> lists them, with distinct names.
  A variable of the handler holds such a value or \<open>undefined\<close>, which is \<open>None\<close>.
  \<open>JSON.parse\<close> belongs to the platform: the handler takes it as the parameter \<open>parse\<close>,
  where \<open>None\<close> stands for the \<open>SyntaxError\<close> it raises.
\<close>

datatype json = JNull | JBool bool | JNum int | JStr string | JArr "json list"
  | JObj "(string \<times> json) list"

type_synonym jsval = "json option"

fun truthy :: "jsval \<Rightarrow> bool" where
  "truthy None = False"
| "truthy (Some JNull) = False"
| "truthy (Some (JBool b)) = b"
| "truthy (Some (JNum n)) = (n \<noteq> 0)"
| "truthy (Some (JStr s)) = (s \<noteq> [])"
| "truthy (Some (JArr xs)) = True"
| "truthy (Some (JObj kvs)) = True"

fun typeof_object :: "jsval \<Rightarrow> bool" where
  "typeof_object (Some JNull) = True"
| "typeof_object (Some (JArr xs)) = True"
| "typeof_object (Some (JObj kvs)) = True"
| "typeof_object v = False"

fun typeof_string :: "jsval \<Rightarrow> bool" where
  "typeof_string (Some (JStr s)) = True"
| "typeof_string v = False"

fun get_prop :: "jsval \<Rightarrow> string \<Rightarrow> jsval" where
  \<comment> \<open>\<open>v[k]\<close> for a value that is neither \<open>null\<close> nor \<open>undefined\<close> and a name \<open>k\<close> that the
      source reads (\<open>from\<close>, \<open>headers\<close>, \<open>body-plain\<close>, ...): no prototype defines one of them,
      so only an object's own property gives a value\<close>
  "get_prop (Some (JObj kvs)) k = map_of kvs k"
| "get_prop v k = None"

definition js_or :: "jsval \<Rightarrow> jsval \<Rightarrow> jsval" where
  \<comment> \<open>\<open>a || b\<close>\<close>
  "js_or a b = (if truthy a then a else b)"

definition string_or :: "jsval \<Rightarrow> jsval \<Rightarrow> jsval" where
  \<comment> \<open>\<open>typeof a === 'string' ? a : b\<close>\<close>
  "string_or a b = (if typeof_string a then a else b)"

subsection \<open>\<open>JSON.stringify\<close>\<close>

fun show_nat :: "nat \<Rightarrow> string" where
  "show_nat n =
     (if n < 10 then [char_of (48 + n)] else show_nat (n div 10) @ [char_of (48 + n mod 10)])"

declare show_nat.simps [simp del]

definition show_int :: "int \<Rightarrow> string" where
  "show_int i = (if i < 0 then CHR ''-'' # show_nat (nat (- i)) else show_nat (nat i))"

definition hex_digit :: "nat \<Rightarrow> char" where
  "hex_digit n = (if n < 10 then char_of (48 + n) else char_of (87 + n))"

definition escape_char :: "char \<Rightarrow> string" where
  "escape_char c =
     (if c = CHR 0x22 then [CHR 0x5C, CHR 0x22]
      else if c = CHR 0x5C then [CHR 0x5C, CHR 0x5C]
      else if code c = 8 then [CHR 0x5C, CHR ''b'']
      else if code c = 12 then [CHR 0x5C, CHR ''f'']
      else if code c = 10 then [CHR 0x5C, CHR ''n'']
      else if code c = 13 then [CHR 0x5C, CHR ''r'']
      else if code c = 9 then [CHR 0x5C, CHR ''t'']
      else if code c < 32
        then [CHR 0x5C, CHR ''u'', CHR ''0'', CHR ''0'', hex_digit (code c div 16),
              hex_digit (code c mod 16)]
      else [c])"

definition quote :: "string \<Rightarrow> string" where
  "quote s = CHR 0x22 # concat (map escape_char s) @ [CHR 0x22]"

fun join :: "string \<Rightarrow> string list \<Rightarrow> string" where
  "join sep [] = []"
| "join sep [x] = x"
| "join sep (x # y # ys) = x @ sep @ join sep (y # ys)"

fun stringify :: "json \<Rightarrow> string" where
  \<comment> \<open>\<open>JSON.stringify\<close>; an integer is written in decimal digits, as the platform writes
      it below \<open>10^21\<close> (from there on the platform uses the exponent form)\<close>
  "stringify JNull = ''null''"
| "stringify (JBool b) = (if b then ''true'' else ''false'')"
| "stringify (JNum n) = show_int n"
| "stringify (JStr s) = quote s"
| "stringify (JArr xs) = ''['' @ join '','' (map stringify xs) @ '']''"
| "stringify (JObj kvs) =
     ''{'' @ join '','' (map (\<lambda>kv. quote (fst kv) @ '':'' @ stringify (snd kv)) kvs) @ ''}''"

section \<open>The payload normalizer\<close>

text \<open>
  The first part of \<open>processEmailTask\<close> fills the five variables \<open>from\<close>, \<open>to\<close>,
  \<open>subject\<close>, \<open>text\<close> and \<open>html\<close> from the request body. The stages below follow the
  source in its order; each takes the working body \<open>parsedBody\<close> and the variables and
  returns them updated.
\<close>

record fields =
  f_from :: jsval
  f_to :: jsval
  f_subject :: jsval
  f_text :: jsval
  f_html :: jsval

definition no_fields :: fields where
  "no_fields = \<lparr> f_from = None, f_to = None, f_subject = None, f_text = None, f_html = None \<rparr>"

definition parse_body :: "(string \<Rightarrow> json option) \<Rightarrow> json \<Rightarrow> json" where
  \<comment> \<open>a string body is parsed; when that raises, the string stays\<close>
  "parse_body parse body =
     (case body of JStr s \<Rightarrow> (case parse s of Some v \<Rightarrow> v | None \<Rightarrow> body) | _ \<Rightarrow> body)"

definition parse_item :: "(string \<Rightarrow> json option) \<Rightarrow> jsval \<Rightarrow> json option" where
  \<comment> \<open>\<open>JSON.parse(item)\<close> inside \<open>try\<close>, for an item that is a string\<close>
  "parse_item parse item = (case item of Some (JStr s) \<Rightarrow> parse s | _ \<Rightarrow> None)"

definition has_mail_key :: "jsval \<Rightarrow> bool" where
  \<comment> \<open>\<open>v.from || v.to || v.subject || v.sender || v.recipient\<close>\<close>
  "has_mail_key v =
     (truthy (get_prop v ''from'') \<or> truthy (get_prop v ''to'') \<or> truthy (get_prop v ''subject'')
      \<or> truthy (get_prop v ''sender'') \<or> truthy (get_prop v ''recipient''))"

subsection \<open>Arrays\<close>

fun find_email_item :: "(string \<Rightarrow> json option) \<Rightarrow> json list \<Rightarrow> json option" where
  \<comment> \<open>the loop over a small array: the element, or the parsed string element, that
      becomes the working body\<close>
  "find_email_item parse [] = None"
| "find_email_item parse (it # rest) =
     (if truthy (Some it) \<and> typeof_object (Some it) \<and> has_mail_key (Some it) then Some it
      else if truthy (Some it) \<and> typeof_string (Some it)
      then (case parse_item parse (Some it) of
              Some parsed \<Rightarrow>
                if truthy (Some parsed) \<and> typeof_object (Some parsed) \<and> has_mail_key (Some parsed)
                then Some parsed
                else find_email_item parse rest
            | None \<Rightarrow> find_email_item parse rest)
      else find_email_item parse rest)"

definition not_quote :: re where
  "not_quote = Atom (\<lambda>c. c \<noteq> CHR 0x22)"

definition any_value :: re where
  \<comment> \<open>\<open>[^"]+\<close>\<close>
  "any_value = plus not_quote"

definition mail_value :: re where
  \<comment> \<open>\<open>[^"]+@[^"]+\<close>\<close>
  "mail_value = seqs [plus not_quote, chr CHR ''@'', plus not_quote]"

definition quoted_value :: "bool \<Rightarrow> string \<Rightarrow> re \<Rightarrow> re" where
  \<comment> \<open>\<open>/"key":\s*"(value)"/\<close>, with the flag \<open>i\<close> or without it\<close>
  "quoted_value ci k v =
     seqs [(if ci then lit_ci else lit) (CHR 0x22 # k @ [CHR 0x22, CHR '':'']), Star ws,
           chr CHR 0x22, Grp 1 v, chr CHR 0x22]"

definition assign_match :: "re \<Rightarrow> string \<Rightarrow> jsval \<Rightarrow> jsval" where
  \<comment> \<open>\<open>const m = s.match(r); if (m) x = m[1]\<close>; group 1 takes part in every match of
      the expressions of the source\<close>
  "assign_match r s old =
     (case rexec r s of None \<Rightarrow> old | Some m \<Rightarrow> map_option JStr (group m 1))"

definition assign_match_trim :: "re \<Rightarrow> string \<Rightarrow> jsval \<Rightarrow> jsval" where
  \<comment> \<open>\<open>const m = s.match(r); if (m) x = m[1].trim()\<close>\<close>
  "assign_match_trim r s old =
     (case rexec r s of None \<Rightarrow> old | Some m \<Rightarrow> map_option (\<lambda>g. JStr (trim g)) (group m 1))"

definition large_array_fields :: "string \<Rightarrow> fields \<Rightarrow> fields" where
  \<comment> \<open>the branch for an array of more than 100 elements, on \<open>JSON.stringify(parsedBody)\<close>\<close>
  "large_array_fields arrayStr fs =
     \<lparr> f_from = assign_match (quoted_value True ''from'' any_value) arrayStr (f_from fs),
       f_to = assign_match (quoted_value True ''to'' any_value) arrayStr (f_to fs),
       f_subject = assign_match (quoted_value True ''subject'' any_value) arrayStr (f_subject fs),
       f_text = assign_match (quoted_value True ''body-plain'' any_value) arrayStr (f_text fs),
       f_html = assign_match (quoted_value True ''body-html'' any_value) arrayStr (f_html fs) \<rparr>"

definition array_stage :: "(string \<Rightarrow> json option) \<Rightarrow> json \<Rightarrow> fields \<Rightarrow> json \<times> fields" where
  "array_stage parse pb fs =
     (case pb of
        JArr xs \<Rightarrow>
          if length xs \<le> 100
          then (case find_email_item parse xs of Some it \<Rightarrow> (it, fs) | None \<Rightarrow> (pb, fs))
          else (pb, large_array_fields (stringify pb) fs)
      | _ \<Rightarrow> (pb, fs))"

subsection \<open>Objects with numeric keys\<close>

definition set_headers :: "jsval \<Rightarrow> fields \<Rightarrow> fields" where
  \<comment> \<open>\<open>from = typeof h.from === 'string' ? h.from : from\<close>, and so for \<open>to\<close> and \<open>subject\<close>\<close>
  "set_headers h fs =
     fs\<lparr> f_from := string_or (get_prop h ''from'') (f_from fs),
         f_to := string_or (get_prop h ''to'') (f_to fs),
         f_subject := string_or (get_prop h ''subject'') (f_subject fs) \<rparr>"

definition set_bodies :: "jsval \<Rightarrow> fields \<Rightarrow> fields" where
  \<comment> \<open>\<open>if (typeof v["body-plain"] === 'string') text = v["body-plain"]\<close>, and so for \<open>html\<close>\<close>
  "set_bodies v fs =
     fs\<lparr> f_text := string_or (get_prop v ''body-plain'') (f_text fs),
         f_html := string_or (get_prop v ''body-html'') (f_html fs) \<rparr>"

definition arraylike_item :: "(string \<Rightarrow> json option) \<Rightarrow> jsval \<Rightarrow> fields \<Rightarrow> fields \<times> bool" where
  \<comment> \<open>the body of the loop over the items; the truth value says that the loop ends here
      (\<open>break\<close>)\<close>
  "arraylike_item parse item fs =
     (if truthy item \<and> typeof_object item then
        (let hdrs = get_prop item ''headers''; msg = get_prop item ''message'' in
         if truthy hdrs \<and> typeof_object hdrs
            \<and> (truthy (get_prop hdrs ''from'') \<or> truthy (get_prop hdrs ''to'')
                \<or> truthy (get_prop hdrs ''subject''))
         then (set_headers hdrs fs, True)
         else if truthy msg \<and> typeof_object msg \<and> truthy (get_prop msg ''headers'')
                 \<and> typeof_object (get_prop msg ''headers'')
         then (set_headers (get_prop msg ''headers'') fs, True)
         else (let fs' = (if truthy msg \<and> typeof_object msg then set_bodies msg fs else fs) in
               if truthy (get_prop item ''from'') \<or> truthy (get_prop item ''to'')
                  \<or> truthy (get_prop item ''subject'')
               then (set_headers item fs', True)
               else (fs', False)))
      else if truthy item \<and> typeof_string item then
        (case parse_item parse item of
           None \<Rightarrow> (fs, False)
         | Some p \<Rightarrow>
             (let parsed = Some p in
              if truthy parsed \<and> typeof_object parsed then
                (if truthy (get_prop parsed ''headers'') \<and> typeof_object (get_prop parsed ''headers'')
                 then (set_headers (get_prop parsed ''headers'') fs, True)
                 else if truthy (get_prop parsed ''message'')
                         \<and> truthy (get_prop (get_prop parsed ''message'') ''headers'')
                         \<and> typeof_object (get_prop (get_prop parsed ''message'') ''headers'')
                 then (set_headers (get_prop (get_prop parsed ''message'') ''headers'') fs, True)
                 else (set_bodies parsed fs, False))
              else (fs, False)))
      else (fs, False))"

fun arraylike_scan :: "(string \<Rightarrow> json option) \<Rightarrow> jsval list \<Rightarrow> fields \<Rightarrow> fields" where
  "arraylike_scan parse [] fs = fs"
| "arraylike_scan parse (item # rest) fs =
     (case arraylike_item parse item fs of
        (fs', stop) \<Rightarrow> if stop then fs' else arraylike_scan parse rest fs')"

definition is_numeric_key :: "string \<Rightarrow> bool" where
  \<comment> \<open>\<open>/^\d+$/\<close>\<close>
  "is_numeric_key k = (k \<noteq> [] \<and> list_all is_digit k)"

definition arraylike_stage :: "(string \<Rightarrow> json option) \<Rightarrow> json \<Rightarrow> fields \<Rightarrow> fields" where
  \<comment> \<open>the numeric keys are sorted by \<open>parseInt(a) - parseInt(b)\<close>, here on the exact value
      of the digits; the platform compares the nearest doubles, the same order for keys
      below \<open>2^53\<close>\<close>
  "arraylike_stage parse pb fs =
     (case pb of
        JObj kvs \<Rightarrow>
          (let objectKeys = map fst kvs;
               numericKeys = filter is_numeric_key objectKeys
           in if 0 < length numericKeys \<and> length objectKeys div 2 \<le> length numericKeys
              then arraylike_scan parse
                     (map (map_of kvs) (sort_key (\<lambda>k. nat (digits_val k)) numericKeys)) fs
              else fs)
      | _ \<Rightarrow> fs)"

subsection \<open>The formats of the webhook\<close>

definition or3 :: "jsval \<Rightarrow> string \<Rightarrow> string \<Rightarrow> string \<Rightarrow> jsval" where
  \<comment> \<open>\<open>v[a] || v[b] || v[c]\<close>\<close>
  "or3 v a b c = js_or (js_or (get_prop v a) (get_prop v b)) (get_prop v c)"

definition event_data_fields :: "jsval \<Rightarrow> fields" where
  \<comment> \<open>\<open>message.headers?.from || message.from\<close>, and so on; \<open>message\<close> is truthy\<close>
  "event_data_fields message =
     \<lparr> f_from = js_or (get_prop (get_prop message ''headers'') ''from'') (get_prop message ''from''),
       f_to = js_or (get_prop (get_prop message ''headers'') ''to'') (get_prop message ''to''),
       f_subject = js_or (get_prop (get_prop message ''headers'') ''subject'')
                         (get_prop message ''subject''),
       f_text = or3 message ''body-plain'' ''stripped-text'' ''body'',
       f_html = js_or (get_prop message ''body-html'') (get_prop message ''stripped-html'') \<rparr>"

definition recipient_fields :: "jsval \<Rightarrow> fields" where
  \<comment> \<open>the format with \<open>recipient\<close>, and the same five assignments of the standard
      extraction further down\<close>
  "recipient_fields b =
     \<lparr> f_from = js_or (get_prop b ''sender'') (get_prop b ''from''),
       f_to = js_or (get_prop b ''recipient'') (get_prop b ''to''),
       f_subject = get_prop b ''subject'',
       f_text = js_or (or3 b ''body-plain'' ''stripped-text'' ''body'') (get_prop b ''text''),
       f_html = or3 b ''body-html'' ''stripped-html'' ''html'' \<rparr>"

definition simple_fields :: "jsval \<Rightarrow> fields" where
  "simple_fields b =
     \<lparr> f_from = get_prop b ''from'',
       f_to = get_prop b ''to'',
       f_subject = get_prop b ''subject'',
       f_text = or3 b ''text'' ''body-plain'' ''stripped-text'',
       f_html = or3 b ''html'' ''body-html'' ''stripped-html'' \<rparr>"

subsection \<open>Arrays of more than 1000 elements\<close>

definition range100 :: "nat \<Rightarrow> nat \<Rightarrow> nat list" where
  \<comment> \<open>\<open>for (i = a; i < b; i += 100)\<close>\<close>
  "range100 a b = map (\<lambda>k. a + 100 * k) [0 ..< (b - a + 99) div 100]"

definition sample_indices :: "nat \<Rightarrow> nat list" where
  "sample_indices n =
     (let sampleSize = min 1000 (n div 10)
      in range100 0 sampleSize
         @ range100 (n div 2) (min (n div 2 + sampleSize) n)
         @ range100 (n - sampleSize) n)"

definition samples_of :: "json list \<Rightarrow> jsval list" where
  "samples_of xs =
     map (\<lambda>i. if i < length xs then Some (xs ! i) else None) (sample_indices (length xs))"

definition sample_token :: re where
  \<comment> \<open>\<open>[^",\n]\<close>\<close>
  "sample_token = Atom (\<lambda>c. c \<noteq> CHR 0x22 \<and> c \<noteq> CHR '','' \<and> c \<noteq> CHR 0x0A)"

definition sample_address :: "string \<Rightarrow> re" where
  \<comment> \<open>\<open>/(?:"key"|key):\s*"?([^",\n]+@[^",\n]+)"?/i\<close>\<close>
  "sample_address k =
     seqs [Alt (lit_ci (CHR 0x22 # k @ [CHR 0x22])) (lit_ci k), chr CHR '':'', Star ws,
           opt (chr CHR 0x22),
           Grp 1 (seqs [plus sample_token, chr CHR ''@'', plus sample_token]),
           opt (chr CHR 0x22)]"

definition sample_subject :: re where
  \<comment> \<open>\<open>/(?:"subject"|subject):\s*"([^"]+)"/i\<close>\<close>
  "sample_subject =
     seqs [Alt (lit_ci (CHR 0x22 # ''subject'' @ [CHR 0x22])) (lit_ci ''subject''), chr CHR '':'',
           Star ws, chr CHR 0x22, Grp 1 any_value, chr CHR 0x22]"

definition massive_item ::
  "(string \<Rightarrow> json option) \<Rightarrow> jsval \<Rightarrow> json \<Rightarrow> fields \<Rightarrow> json \<times> fields \<times> bool" where
  \<comment> \<open>the body of the loop over the samples; the truth value is \<open>emailFound\<close>, set
      together with \<open>break\<close>\<close>
  "massive_item parse item pb fs =
     (if truthy item \<and> typeof_string item then
        (case (case parse_item parse item of
                 Some parsed \<Rightarrow>
                   if truthy (Some parsed) \<and> typeof_object (Some parsed)
                      \<and> has_mail_key (Some parsed)
                   then Some parsed else None
               | None \<Rightarrow> None) of
           Some parsed \<Rightarrow> (parsed, fs, True)
         | None \<Rightarrow>
             (let s = (case item of Some (JStr t) \<Rightarrow> t | _ \<Rightarrow> []) in
              if includes_str s ''@''
                 \<and> (includes_str s ''subject'' \<or> includes_str s ''from'' \<or> includes_str s ''to'')
              then (let fs' = fs\<lparr> f_from := assign_match_trim (sample_address ''from'') s (f_from fs),
                                    f_to := assign_match_trim (sample_address ''to'') s (f_to fs),
                                    f_subject := assign_match_trim sample_subject s (f_subject fs) \<rparr>
                    in (pb, fs', truthy (f_from fs') \<and> truthy (f_to fs') \<and> truthy (f_subject fs')))
              else (pb, fs, False)))
      else if truthy item \<and> typeof_object item then
        (if has_mail_key item
         then (case item of Some it \<Rightarrow> (it, fs, True) | None \<Rightarrow> (pb, fs, True))
         else (pb, fs, False))
      else (pb, fs, False))"

fun massive_scan ::
  "(string \<Rightarrow> json option) \<Rightarrow> jsval list \<Rightarrow> json \<Rightarrow> fields \<Rightarrow> json \<times> fields \<times> bool" where
  "massive_scan parse [] pb fs = (pb, fs, False)"
| "massive_scan parse (item # rest) pb fs =
     (case massive_item parse item pb fs of
        (pb', fs', emailFound) \<Rightarrow>
          if emailFound then (pb', fs', True) else massive_scan parse rest pb' fs')"

definition massive_stage :: "(string \<Rightarrow> json option) \<Rightarrow> json \<Rightarrow> fields \<Rightarrow> json \<times> fields" where
  "massive_stage parse pb fs =
     (case pb of
        JArr xs \<Rightarrow>
          if 1000 < length xs
          then (case massive_scan parse (samples_of xs) pb fs of
                  (pb', fs', emailFound) \<Rightarrow>
                    if emailFound then (pb', fs')
                    else if length xs < 10000
                    then (let arrayStr = stringify pb in
                          (pb', fs'\<lparr> f_from := assign_match (quoted_value False ''from'' mail_value)
                                                 arrayStr (f_from fs'),
                                      f_to := assign_match (quoted_value False ''to'' mail_value)
                                               arrayStr (f_to fs'),
                                      f_subject := assign_match
                                                     (quoted_value False ''subject'' any_value)
                                                     arrayStr (f_subject fs') \<rparr>))
                    else (pb', fs'))
          else (pb, fs)
      | _ \<Rightarrow> (pb, fs))"

subsection \<open>The fallback on the text of the body\<close>

definition bare_token :: re where
  \<comment> \<open>\<open>[^,\s\n]\<close>\<close>
  "bare_token = Atom (\<lambda>c. c \<noteq> CHR '','' \<and> \<not> is_ws c \<and> c \<noteq> CHR 0x0A)"

definition bare_address :: "string \<Rightarrow> re" where
  \<comment> \<open>\<open>/key:\s*([^,\s\n]+@[^,\s\n]+)/i\<close>\<close>
  "bare_address k =
     seqs [lit_ci (k @ '':''), Star ws,
           Grp 1 (seqs [plus bare_token, chr CHR ''@'', plus bare_token])]"

definition bare_subject :: re where
  \<comment> \<open>\<open>/subject:\s*([^\n\r]+)/i\<close>\<close>
  "bare_subject =
     seqs [lit_ci ''subject:'', Star ws,
           Grp 1 (plus (Atom (\<lambda>c. c \<noteq> CHR 0x0A \<and> c \<noteq> CHR 0x0D)))]"

fun first_match :: "re list \<Rightarrow> string \<Rightarrow> caps option" where
  \<comment> \<open>\<open>for (const p of patterns) { const m = s.match(p); if (m) { ...; break } }\<close>\<close>
  "first_match [] s = None"
| "first_match (r # rs) s = (case rexec r s of Some m \<Rightarrow> Some m | None \<Rightarrow> first_match rs s)"

definition fallback_fields :: "json \<Rightarrow> fields \<Rightarrow> fields" where
  "fallback_fields pb fs =
     (let bodyStr = (case pb of JStr s \<Rightarrow> s | _ \<Rightarrow> take 50000 (stringify pb));
          from' = (case first_match [quoted_value True ''from'' mail_value,
                                     quoted_value True ''sender'' mail_value,
                                     bare_address ''from'', bare_address ''sender''] bodyStr of
                     None \<Rightarrow> f_from fs
                   | Some m \<Rightarrow> map_option (\<lambda>g. JStr (trim g)) (group m 1));
          to' = (case first_match [quoted_value True ''to'' mail_value,
                                   quoted_value True ''recipient'' mail_value,
                                   bare_address ''to'', bare_address ''recipient''] bodyStr of
                   None \<Rightarrow> f_to fs
                 | Some m \<Rightarrow> map_option (\<lambda>g. JStr (trim g)) (group m 1));
          subject' = (case first_match [quoted_value True ''subject'' any_value, bare_subject]
                             bodyStr of
                        None \<Rightarrow> f_subject fs
                      | Some m \<Rightarrow> map_option (\<lambda>g. JStr (trim g)) (group m 1));
          text' = (if \<not> truthy (f_text fs) \<and> \<not> truthy (f_html fs)
                   then (case first_match [quoted_value False ''body-plain'' any_value,
                                           quoted_value False ''stripped-text'' any_value,
                                           quoted_value False ''body'' any_value,
                                           quoted_value False ''text'' any_value] bodyStr of
                           None \<Rightarrow> f_text fs
                         | Some m \<Rightarrow> map_option JStr (group m 1))
                   else f_text fs)
      in \<lparr> f_from = from', f_to = to', f_subject = subject', f_text = text',
           f_html = f_html fs \<rparr>)"

definition substring_ok :: "jsval \<Rightarrow> bool" where
  \<comment> \<open>the log line \<open>x ? `${x.substring(0, 20)}...` : undefined\<close> raises a \<open>TypeError\<close> when
      \<open>x\<close> is truthy and has no method \<open>substring\<close>, that is, when it is not a string\<close>
  "substring_ok x = (\<not> truthy x \<or> typeof_string x)"

definition other_stage :: "(string \<Rightarrow> json option) \<Rightarrow> json \<Rightarrow> fields \<Rightarrow> error + fields" where
  \<comment> \<open>the last \<open>else\<close> of the format selection\<close>
  "other_stage parse pb fs =
     (case massive_stage parse pb fs of
        (pb1, fs1) \<Rightarrow>
          (let none1 = (\<not> truthy (f_from fs1) \<and> \<not> truthy (f_to fs1) \<and> \<not> truthy (f_subject fs1));
               fs2 = (if none1 \<and> truthy (Some pb1) \<and> typeof_object (Some pb1)
                         \<and> (case pb1 of JArr xs \<Rightarrow> False | _ \<Rightarrow> True)
                      then recipient_fields (Some pb1) else fs1);
               none2 = (\<not> truthy (f_from fs2) \<and> \<not> truthy (f_to fs2) \<and> \<not> truthy (f_subject fs2));
               fs3 = (if none2 then fallback_fields pb1 fs2 else fs2)
           in if substring_ok (f_from fs3) \<and> substring_ok (f_to fs3) \<and> substring_ok (f_subject fs3)
              then Inr fs3 else Inl TypeError))"

definition format_stage :: "(string \<Rightarrow> json option) \<Rightarrow> json \<Rightarrow> fields \<Rightarrow> error + fields" where
  \<comment> \<open>\<open>parsedBody['event-data']\<close> is read without a guard: a \<open>TypeError\<close> for \<open>null\<close>\<close>
  "format_stage parse pb fs =
     (if pb = JNull then Inl TypeError
      else let b = Some pb in
        if truthy (get_prop b ''event-data'') \<and> truthy (get_prop (get_prop b ''event-data'') ''message'')
        then Inr (event_data_fields (get_prop (get_prop b ''event-data'') ''message''))
        else if truthy (get_prop b ''recipient'') then Inr (recipient_fields b)
        else if truthy (get_prop b ''from'') \<or> truthy (get_prop b ''to'')
                \<or> truthy (get_prop b ''subject'')
        then Inr (simple_fields b)
        else other_stage parse pb fs)"

definition extractEmailData :: "(string \<Rightarrow> json option) \<Rightarrow> json \<Rightarrow> error + fields" where
  \<comment> \<open>the extraction phase of \<open>processEmailTask\<close>, from the request body to the five
      variables\<close>
  "extractEmailData parse body =
     (case array_stage parse (parse_body parse body) no_fields of
        (pb, fs) \<Rightarrow> format_stage parse pb (arraylike_stage parse pb fs))"

section \<open>The request handler\<close>

text \<open>
  The user store and the task store are the document database, an external service.
  The model keeps what the handler reads and writes: the identifiers of the user
  documents, the tasks added (with the identifier of their user), and how the service
  fails, since each call to it may raise: reading one user document, listing the
  users, adding a task (with the message of the error).
\<close>

datatype http_method = OPTIONS | POST | OTHER_METHOD

record request =
  req_method :: http_method
  req_body :: json

record store =
  users :: "string list"
  tasks :: "(string \<times> EmailTask) list"
  get_fails :: bool
  list_fails :: bool
  add_error :: "string option"

datatype reply =
    No_Content
  | Method_Not_Allowed
  | Missing_Fields string string string
  | Invalid_Address string
  | User_Not_Found string "string list"
  | User_Check_Failed string
  | Parse_Failed
  | Task_Created nat string string int
  | Permission_Denied string string
  | Quota_Exceeded string string
  | Create_Failed string string
  | Internal_Error

fun status :: "reply \<Rightarrow> nat" where
  "status No_Content = 204"
| "status Method_Not_Allowed = 405"
| "status (Missing_Fields f t s) = 400"
| "status (Invalid_Address a) = 400"
| "status (User_Not_Found u us) = 404"
| "status (User_Check_Failed u) = 500"
| "status Parse_Failed = 500"
| "status (Task_Created i t a n) = 200"
| "status (Permission_Denied u m) = 403"
| "status (Quota_Exceeded u m) = 429"
| "status (Create_Failed u m) = 500"
| "status Internal_Error = 500"

definition str_or_empty :: "jsval \<Rightarrow> string" where
  \<comment> \<open>the argument \<open>x || ''\<close> of the three helpers, each of which treats a value that is
      not a string as it treats the empty string (\<open>!x || typeof x !== 'string'\<close>)\<close>
  "str_or_empty x = (case x of Some (JStr s) \<Rightarrow> s | _ \<Rightarrow> [])"

definition field_report :: "bool \<Rightarrow> string" where
  "field_report failed = (if failed then ''missing or invalid'' else ''ok'')"

definition find_user :: "store \<Rightarrow> string \<Rightarrow> reply + string" where
  \<comment> \<open>the exact lookup, then the scan of all users that ignores case\<close>
  "find_user db userId =
     (if get_fails db then Inl (User_Check_Failed userId)
      else if userId \<in> set (users db) then Inr userId
      else if list_fails db then Inl (User_Check_Failed userId)
      else case find (\<lambda>i. toLowerCase i = toLowerCase userId) (users db) of
             Some matchingUser \<Rightarrow> Inr matchingUser
           | None \<Rightarrow> Inl (User_Not_Found userId (take 5 (users db))))"

definition create_task :: "store \<Rightarrow> string \<Rightarrow> string \<Rightarrow> EmailTask \<Rightarrow> reply \<times> store" where
  "create_task db userId actualUserId emailTask =
     (let thrown =
            (if title emailTask = [] \<or> trim (title emailTask) = []
             then Some ''Task title is required''
             else if importance emailTask < 1 \<or> 10 < importance emailTask
             then Some ''Task importance must be a number between 1 and 10''
             else if area emailTask = [] then Some ''Task area is required''
             else add_error db)
      in case thrown of
           None \<Rightarrow>
             (Task_Created (length (tasks db)) (title emailTask) (area emailTask)
                (importance emailTask),
              db\<lparr> tasks := tasks db @ [(actualUserId, emailTask)] \<rparr>)
         | Some msg \<Rightarrow>
             (if includes_str msg ''permission'' then Permission_Denied userId msg
              else if includes_str msg ''quota'' \<or> includes_str msg ''limit''
              then Quota_Exceeded userId msg
              else Create_Failed userId msg,
              db))"

definition processEmailTask ::
  "(string \<Rightarrow> json option) \<Rightarrow> clock \<Rightarrow> store \<Rightarrow> request \<Rightarrow> reply \<times> store" where
  "processEmailTask parse clk db req =
     (if req_method req = OPTIONS then (No_Content, db)
      else if req_method req \<noteq> POST then (Method_Not_Allowed, db)
      else case extractEmailData parse (req_body req) of
        Inl e \<Rightarrow> (Internal_Error, db)
      | Inr fs \<Rightarrow>
          (let sanitizedFrom = validateAndSanitizeEmail (str_or_empty (f_from fs));
               sanitizedTo = validateAndSanitizeEmail (str_or_empty (f_to fs));
               sanitizedSubject = sanitizeSubject (str_or_empty (f_subject fs));
               sanitizedText = sanitizeTextContent (str_or_empty (f_text fs));
               sanitizedHtml = sanitizeTextContent (str_or_empty (f_html fs))
           in case (sanitizedFrom, sanitizedTo) of
                (Some sFrom, Some sTo) \<Rightarrow>
                  if sanitizedSubject = []
                  then (Missing_Fields (field_report False) (field_report False)
                          (field_report True), db)
                  else
                    (case extractUserIdFromEmail sTo of
                       None \<Rightarrow> (Invalid_Address sTo, db)
                     | Some userId \<Rightarrow>
                         if userId = [] then (Invalid_Address sTo, db)
                         else
                           (case find_user db userId of
                              Inl r \<Rightarrow> (r, db)
                            | Inr actualUserId \<Rightarrow>
                                (case parseEmailToTask clk
                                        \<lparr> e_from = sFrom, e_to = sTo,
                                          e_subject = sanitizedSubject,
                                          e_text = Some sanitizedText,
                                          e_html = Some sanitizedHtml,
                                          e_receivedAt = new_Date clk \<rparr> of
                                   Inl e \<Rightarrow> (Parse_Failed, db)
                                 | Inr emailTask \<Rightarrow>
                                     create_task db userId actualUserId emailTask)))
              | _ \<Rightarrow>
                  (Missing_Fields (field_report (sanitizedFrom = None))
                     (field_report (sanitizedTo = None))
                     (field_report (sanitizedSubject = [])), db)))"

section \<open>Notions of the specification\<close>

text \<open>
  The definitions of this section do not come from the source. They say in their own
  terms what the specification says, or name an intermediate notion of a proof, and the
  theorems below compare them with the functions of the source.
\<close>

fun positions :: "char option \<Rightarrow> string \<Rightarrow> (char option \<times> string) list" where
  \<comment> \<open>the positions of a text where a search may start\<close>
  "positions p [] = [(p, [])]"
| "positions p (x # xs) = (p, x # xs) # positions (Some x) xs"

definition ci_prefix :: "string \<Rightarrow> string \<Rightarrow> bool" where
  \<comment> \<open>\<open>t\<close> starts with \<open>w\<close>, ignoring the case of ASCII letters\<close>
  "ci_prefix w t = (length w \<le> length t \<and> map fold_char (take (length w) t) = map fold_char w)"

definition prev_of :: "char option \<Rightarrow> string \<Rightarrow> char option" where
  "prev_of q u = (if u = [] then q else Some (last u))"

definition contains_ci :: "string \<Rightarrow> string \<Rightarrow> bool" where
  \<comment> \<open>\<open>s\<close> contains the substring \<open>w\<close>, ignoring the case of ASCII letters\<close>
  "contains_ci w s = sublist (map fold_char w) (map fold_char s)"

definition marker_words :: "string list" where
  "marker_words = [''Fwd'', ''Re'', ''Fw'', ''Forward'', ''Reply'']"

definition has_marker :: "string \<Rightarrow> string \<Rightarrow> bool" where
  \<comment> \<open>\<open>s\<close> starts with the word \<open>w\<close> in any case and a colon\<close>
  "has_marker s w = (ci_prefix w s \<and> prefix '':'' (drop (length w) s))"

definition strip_marker :: "string \<Rightarrow> string" where
  \<comment> \<open>the title cleaning of the specification: one leading marker and the white space
      after it are removed, once\<close>
  "strip_marker s =
     (case find (has_marker s) marker_words of
        None \<Rightarrow> s
      | Some w \<Rightarrow> dropWhile is_ws (drop (length w + 1) s))"

definition marker_tail :: re where
  "marker_tail = Seq (chr CHR '':'') (Seq (Star ws) Eps)"

definition word_matches :: "string \<Rightarrow> string \<Rightarrow> mstate list" where
  "word_matches s w = rmatch (Seq (Grp 1 (lit_ci w)) marker_tail) (None, s, [])"

definition example_clock :: clock where
  \<comment> \<open>29 February 2024, 12:34:56.789 UTC, in a zone one hour east of Greenwich\<close>
  "example_clock = \<lparr> now = 1709210096789, tza = 3600000 \<rparr>"

definition example_message :: "string \<Rightarrow> string option \<Rightarrow> EmailMessage" where
  "example_message subject body =
     \<lparr> e_from = ''Ann@Example.org'', e_to = ''bob@tasks.example.org'', e_subject = subject,
       e_text = body, e_html = None, e_receivedAt = Time 1709210096789 \<rparr>"


definition valid_date :: "jsdate \<Rightarrow> bool" where
  \<comment> \<open>a date that holds a time value, within the range of time values\<close>
  "valid_date d = (case d of Invalid_Date \<Rightarrow> False | Time t \<Rightarrow> \<bar>t\<bar> \<le> 8640000000000000)"

definition decode_entities :: "string \<Rightarrow> string" where
  \<comment> \<open>the five replacements of \<open>sanitizeTextContent\<close> that decode entities, in its order\<close>
  "decode_entities s =
     replace_all (lit ''&#39;'') [CHR 0x27]
       (replace_all (lit ''&gt;'') ''>''
         (replace_all (lit ''&lt;'') ''<''
           (replace_all (lit ''&amp;'') ''&''
             (replace_all (lit ''&quot;'') [CHR 0x22] s))))"

definition parse_rejecting :: "string \<Rightarrow> json option" where
  \<comment> \<open>a parser that rejects every text, for the examples, whose bodies hold no string to
      parse\<close>
  "parse_rejecting s = None"

definition example_mail :: "string \<Rightarrow> json" where
  "example_mail recipient =
     JObj [(''from'', JStr ''ann@example.org''), (''to'', JStr recipient),
           (''subject'', JStr ''Hi''), (''text'', JStr ''body text'')]"

definition example_large_array :: "json list" where
  "example_large_array = example_mail ''bob@tasks.example.org'' # replicate 100 (JNum 0)"

definition example_store :: store where
  "example_store = \<lparr> users = [''Bob'', ''alice''], tasks = [], get_fails = False,
                      list_fails = False, add_error = None \<rparr>"

definition small_array_strategy :: "(string \<Rightarrow> json option) \<Rightarrow> json list \<Rightarrow> error + fields" where
  \<comment> \<open>the strategy for arrays of at most 100 elements, applied to an array of any length:
      the scan of the elements, then the rest of the extraction on the working body\<close>
  "small_array_strategy parse xs =
     (case (case find_email_item parse xs of Some it \<Rightarrow> (it, no_fields)
            | None \<Rightarrow> (JArr xs, no_fields)) of
        (pb, fs) \<Rightarrow> format_stage parse pb (arraylike_stage parse pb fs))"

fun atoms_sat :: "(char \<Rightarrow> bool) \<Rightarrow> re \<Rightarrow> bool" where
  \<comment> \<open>every character that an atom of the expression accepts satisfies \<open>P\<close>\<close>
  "atoms_sat P (Atom p) = (\<forall>x. p x \<longrightarrow> P x)"
| "atoms_sat P Eps = True"
| "atoms_sat P (Seq r1 r2) = (atoms_sat P r1 \<and> atoms_sat P r2)"
| "atoms_sat P (Alt r1 r2) = (atoms_sat P r1 \<and> atoms_sat P r2)"
| "atoms_sat P (Star r) = atoms_sat P r"
| "atoms_sat P (Lazy r) = atoms_sat P r"
| "atoms_sat P (Grp n r) = atoms_sat P r"
| "atoms_sat P (Bol m) = True"
| "atoms_sat P (Eol m) = True"
| "atoms_sat P (Ahead r) = True"

fun ends_eol :: "re \<Rightarrow> bool" where
  \<comment> \<open>the expression ends with \<open>$\<close> (without the flag \<open>m\<close>)\<close>
  "ends_eol (Seq r1 r2) = (ends_eol r2 \<or> (r2 = Eps \<and> ends_eol r1))"
| "ends_eol (Eol m) = (\<not> m)"
| "ends_eol r = False"

definition local_char :: "char \<Rightarrow> bool" where
  \<comment> \<open>the class \<open>[a-zA-Z0-9._%+-]\<close>\<close>
  "local_char c = (is_alpha c \<or> is_digit c \<or> c \<in> set ''._%+-'')"

definition domain_char :: "char \<Rightarrow> bool" where
  \<comment> \<open>the class \<open>[a-zA-Z0-9.-]\<close>\<close>
  "domain_char c = (is_alpha c \<or> is_digit c \<or> c \<in> set ''.-'')"

definition email_tail :: re where
  \<comment> \<open>the part of \<open>emailRegex\<close> after the sign \<open>@\<close>\<close>
  "email_tail =
     Seq (plus (Atom (\<lambda>c. is_alpha c \<or> is_digit c \<or> c \<in> set ''.-'')))
       (Seq (chr CHR ''.'') (Seq (Atom is_alpha) (Seq (Atom is_alpha)
         (Seq (Star (Atom is_alpha)) (Seq (Eol False) Eps)))))"

section \<open>Facts about the matcher\<close>

declare rmatch.simps [simp del]

lemmas rmatch_basic = rmatch.simps(1,2,3,4,7,8,9,10)

lemma concat_rmatch_Eps: "concat (map (rmatch Eps) xs) = xs"
  by (induction xs) (simp_all add: rmatch.simps(2))

lemma rfind_None_iff:
  "rfind r p s = None \<longleftrightarrow> (\<forall>qt \<in> set (positions p s). rmatch r (fst qt, snd qt, []) = [])"
proof (induction s arbitrary: p)
  case Nil
  then show ?case by (simp split: list.splits)
next
  case (Cons x xs)
  show ?case
  proof (cases "rmatch r (p, x # xs, [])")
    case Nil
    then show ?thesis using Cons.IH[of "Some x"] by (cases "rfind r (Some x) xs") auto
  next
    case (Cons st sts)
    then show ?thesis by simp
  qed
qed

lemma snd_positions: "snd ` set (positions p s) = set (suffixes s)"
  by (induction s arbitrary: p) auto

lemma rmatch_chr_ci:
  "rmatch (chr_ci x) (q, t, c) =
     (case t of [] \<Rightarrow> [] | y # ys \<Rightarrow> if fold_char y = fold_char x then [(Some y, ys, c)] else [])"
  by (cases t) (simp_all add: chr_ci_def rmatch_basic)

lemma rmatch_chr:
  "rmatch (chr x) (q, t, c) =
     (case t of [] \<Rightarrow> [] | y # ys \<Rightarrow> if y = x then [(Some y, ys, c)] else [])"
  by (cases t) (simp_all add: chr_def rmatch_basic)

lemma lit_ci_Nil: "lit_ci [] = Eps"
  by (simp add: lit_ci_def)

lemma lit_ci_Cons: "lit_ci (x # w) = Seq (chr_ci x) (lit_ci w)"
  by (simp add: lit_ci_def)

lemma rmatch_lit_ci:
  "rmatch (lit_ci w) (q, t, c) =
     (if ci_prefix w t then [(prev_of q (take (length w) t), drop (length w) t, c)] else [])"
proof (induction w arbitrary: q t)
  case Nil
  then show ?case by (simp add: ci_prefix_def prev_of_def lit_ci_Nil rmatch_basic)
next
  case (Cons x w)
  show ?case
  proof (cases t)
    case Nil
    then show ?thesis by (simp add: rmatch_chr_ci ci_prefix_def lit_ci_Cons rmatch_basic)
  next
    case (Cons y ys)
    then show ?thesis
      using Cons.IH[of "Some y" ys]
      by (auto simp: rmatch_chr_ci ci_prefix_def prev_of_def lit_ci_Cons rmatch_basic)
  qed
qed

lemma ci_prefix_iff: "ci_prefix w t \<longleftrightarrow> prefix (map fold_char w) (map fold_char t)"
  unfolding ci_prefix_def prefix_def
  apply (auto simp: take_map[symmetric])
   apply (metis append_take_drop_id)
  by (metis length_map length_append le_add1)

lemma test_lit_ci: "test (lit_ci w) s \<longleftrightarrow> contains_ci w s"
proof -
  have "test (lit_ci w) s \<longleftrightarrow> (\<exists>qt \<in> set (positions None s). ci_prefix w (snd qt))"
    by (auto simp: test_def rfind_None_iff rmatch_lit_ci)
  also have "\<dots> \<longleftrightarrow> (\<exists>t \<in> snd ` set (positions None s). ci_prefix w t)"
    by auto
  also have "\<dots> \<longleftrightarrow> (\<exists>t \<in> set (suffixes s). prefix (map fold_char w) (map fold_char t))"
    by (simp add: snd_positions ci_prefix_iff)
  also have "\<dots> \<longleftrightarrow> contains_ci w s"
  proof
    assume "\<exists>t \<in> set (suffixes s). prefix (map fold_char w) (map fold_char t)"
    then obtain t where t: "suffix t s" "prefix (map fold_char w) (map fold_char t)"
      by auto
    then have "suffix (map fold_char t) (map fold_char s)"
      by (simp add: map_mono_suffix)
    with t show "contains_ci w s"
      unfolding contains_ci_def sublist_altdef' by blast
  next
    assume "contains_ci w s"
    then obtain t' where t': "suffix t' (map fold_char s)" "prefix (map fold_char w) t'"
      unfolding contains_ci_def sublist_altdef' by blast
    then obtain zs where "map fold_char s = zs @ t'"
      by (auto simp: suffix_def)
    then obtain us vs where "s = us @ vs" "t' = map fold_char vs"
      by (auto simp: map_eq_append_conv)
    with t' show "\<exists>t \<in> set (suffixes s). prefix (map fold_char w) (map fold_char t)"
      by (auto simp: suffix_def)
  qed
  finally show ?thesis .
qed

lemma test_Alt: "test (Alt r1 r2) s \<longleftrightarrow> test r1 s \<or> test r2 s"
  by (auto simp: test_def rfind_None_iff rmatch_basic)


lemma rfind_Bol_later: "rfind (Seq (Bol False) r) (Some q) s = None"
  by (induction s arbitrary: q) (simp_all add: rmatch_basic)

lemma rmatch_Star_Atom:
  "rmatch (Star (Atom p)) (q, t, c) =
     (case t of [] \<Rightarrow> [(q, [], c)]
      | x # xs \<Rightarrow> if p x then rmatch (Star (Atom p)) (Some x, xs, c) @ [(q, t, c)]
                  else [(q, t, c)])"
  by (subst rmatch.simps) (simp add: rmatch_basic split: list.splits)

lemma rmatch_Star_Atom_hd:
  "\<exists>q' rest. rmatch (Star (Atom p)) (q, t, c) = (q', dropWhile p t, c) # rest"
proof (induction t arbitrary: q)
  case Nil
  then show ?case by (simp add: rmatch_Star_Atom)
next
  case (Cons x xs)
  obtain q' rest where "rmatch (Star (Atom p)) (Some x, xs, c) = (q', dropWhile p xs, c) # rest"
    using Cons[of "Some x"] by blast
  then show ?case
    by (subst rmatch_Star_Atom) simp
qed

lemma rreplace_Atom: "rreplace (Atom p) [] q 0 s = filter (\<lambda>c. \<not> p c) s"
  by (induction s arbitrary: q) (auto simp: rmatch_basic)

lemma replace_all_Atom: "replace_all (Atom p) [] s = filter (\<lambda>c. \<not> p c) s"
  by (simp add: replace_all_def rreplace_Atom)

lemma rreplace_subset: "set (rreplace r rep q k s) \<subseteq> set s \<union> set rep"
proof (induction s arbitrary: q k)
  case Nil
  then show ?case by auto
next
  case (Cons x xs)
  show ?case
  proof (cases "0 < k")
    case True
    then show ?thesis using Cons.IH[of "Some x" "k - 1"] by auto
  next
    case False
    then show ?thesis
      using Cons.IH[of "Some x" 0]
        Cons.IH[of "Some x" "length (x # xs) - length (fst (snd (hd (rmatch r (q, x # xs, []))))) - 1"]
      by (auto split: list.splits simp: Let_def)
  qed
qed

lemma replace_all_subset: "set (replace_all r rep s) \<subseteq> set s \<union> set rep"
  by (simp add: replace_all_def rreplace_subset)

lemma set_trim: "set (trim s) \<subseteq> set s"
  by (auto simp: trim_def dest!: set_dropWhileD)

subsection \<open>The expression that strips a marker\<close>

lemma rmatch_marker_tail:
  "rmatch marker_tail (q, t, c) =
     (case t of [] \<Rightarrow> []
      | y # ys \<Rightarrow> if y = CHR '':'' then rmatch (Star ws) (Some y, ys, c) else [])"
  by (cases t) (simp_all add: marker_tail_def chr_def rmatch.simps(1,3) concat_rmatch_Eps)

lemma rmatch_word:
  "rmatch (Seq (Grp n (lit_ci w)) marker_tail) (q, s, []) =
     (if has_marker s w
      then rmatch (Star ws) (Some CHR '':'', drop (length w + 1) s, [(n, take (length w) s)])
      else [])"
proof (cases "ci_prefix w s")
  case False
  then show ?thesis by (simp add: rmatch_lit_ci has_marker_def rmatch.simps(3,7))
next
  case True
  then have len: "length w \<le> length s" by (simp add: ci_prefix_def)
  show ?thesis
  proof (cases "drop (length w) s")
    case Nil
    with True show ?thesis
      by (simp add: rmatch_lit_ci has_marker_def rmatch_marker_tail rmatch.simps(3,7))
  next
    case (Cons y ys)
    then have "drop (length w + 1) s = ys"
      by (metis Suc_eq_plus1 drop_Suc list.sel(3) tl_drop)
    moreover have "length s - Suc (length ys) = length w"
      using Cons len by (metis diff_diff_cancel length_Cons length_drop)
    ultimately show ?thesis using True Cons len
      by (auto simp: rmatch_lit_ci has_marker_def rmatch_marker_tail rmatch.simps(3,7))
  qed
qed

lemma rmatch_word_hd:
  "rmatch (Seq (Grp n (lit_ci w)) marker_tail) (q, s, []) \<noteq> [] \<longleftrightarrow> has_marker s w"
  "has_marker s w \<Longrightarrow>
     fst (snd (hd (rmatch (Seq (Grp n (lit_ci w)) marker_tail) (q, s, [])))) =
       dropWhile is_ws (drop (length w + 1) s)"
  using rmatch_Star_Atom_hd[of is_ws "Some CHR '':''" "drop (length w + 1) s" "[(n, take (length w) s)]"]
  by (auto simp: rmatch_word ws_def)

lemma rmatch_Seq_Grp_Alt:
  "rmatch (Seq (Grp n (Alt a b)) r) st = rmatch (Seq (Grp n a) r) st @ rmatch (Seq (Grp n b) r) st"
  by (simp add: rmatch_basic)

lemma prefixRegex_matches:
  "rmatch prefixRegex (None, s, []) = concat (map (word_matches s) marker_words)"
proof -
  have eq: "prefixRegex =
          Seq (Bol False)
            (Seq (Grp 1 (Alt (lit_ci ''Fwd'') (Alt (lit_ci ''Re'') (Alt (lit_ci ''Fw'')
                    (Alt (lit_ci ''Forward'') (lit_ci ''Reply''))))))
               marker_tail)"
    by (simp add: prefixRegex_def seqs_def alts_def marker_tail_def)
  have bol: "rmatch (Seq (Bol False) r) (None, s, []) = rmatch r (None, s, [])" for r
    by (simp add: rmatch.simps(3,8))
  show ?thesis
    unfolding eq bol rmatch_Seq_Grp_Alt marker_words_def word_matches_def by simp
qed

lemma find_concat:
  "(concat (map A xs) = []) = (find (\<lambda>w. A w \<noteq> []) xs = None)"
  "find (\<lambda>w. A w \<noteq> []) xs = Some w \<Longrightarrow> hd (concat (map A xs)) = hd (A w)"
  by (induction xs) (auto split: if_splits)

lemma replace_first_prefix: "replace_first prefixRegex [] s = strip_marker s"
proof -
  have ne: "has_marker s = (\<lambda>w. word_matches s w \<noteq> [])"
    by (rule ext) (simp add: word_matches_def rmatch_word_hd(1))
  show ?thesis
  proof (cases "find (has_marker s) marker_words")
    case None
    then have nomatch: "rmatch prefixRegex (None, s, []) = []"
      using find_concat(1)[where A = "word_matches s" and xs = marker_words]
      by (simp add: prefixRegex_matches ne)
    have "rfind prefixRegex None s = None"
    proof (cases s)
      case Nil
      with nomatch show ?thesis by simp
    next
      case (Cons x xs)
      have "rfind prefixRegex (Some x) xs = None"
        unfolding prefixRegex_def seqs_def foldr.simps o_apply by (rule rfind_Bol_later)
      with nomatch Cons show ?thesis by simp
    qed
    with None show ?thesis by (simp add: replace_first_def strip_marker_def)
  next
    case (Some w)
    then have hm: "has_marker s w"
      by (auto simp: find_Some_iff)
    have hdeq: "hd (rmatch prefixRegex (None, s, [])) = hd (word_matches s w)"
      using find_concat(2)[where A = "word_matches s" and xs = marker_words and w = w] Some
      by (simp add: prefixRegex_matches ne)
    have nonempty: "rmatch prefixRegex (None, s, []) \<noteq> []"
      using find_concat(1)[where A = "word_matches s" and xs = marker_words] Some
      by (simp add: prefixRegex_matches ne)
    have rest: "fst (snd (hd (rmatch prefixRegex (None, s, [])))) = dropWhile is_ws (drop (length w + 1) s)"
      using hdeq rmatch_word_hd(2)[OF hm] by (simp add: word_matches_def)
    have "s \<noteq> []" using hm by (auto simp: has_marker_def)
    then obtain x xs where s: "s = x # xs" by (cases s) auto
    obtain st sts where m: "rmatch prefixRegex (None, s, []) = st # sts"
      using nonempty by (cases "rmatch prefixRegex (None, s, [])") auto
    with rest have "fst (snd st) = dropWhile is_ws (drop (length w + 1) s)" by simp
    with m s Some show ?thesis
      by (simp add: replace_first_def strip_marker_def)
  qed
qed

section \<open>Facts about dates\<close>






lemma valid_TimeClip: "TimeClip t \<noteq> Invalid_Date \<Longrightarrow> valid_date (TimeClip t)"
  by (simp add: TimeClip_def valid_date_def split: if_splits)

lemma valid_new_Date_string: "new_Date_string g \<noteq> Invalid_Date \<Longrightarrow> valid_date (new_Date_string g)"
  by (auto simp: new_Date_string_def Let_def valid_TimeClip split: if_splits)

lemma valid_add_days: "add_days clk n \<noteq> Invalid_Date \<Longrightarrow> valid_date (add_days clk n)"
  by (auto simp: add_days_def setDate_def Let_def valid_TimeClip split: jsdate.splits)

lemma extractDueDate_valid:
  "extractDueDateFromSubject clk s = Some d \<Longrightarrow> d \<noteq> Invalid_Date \<Longrightarrow> valid_date d"
  by (auto simp: extractDueDateFromSubject_def valid_new_Date_string valid_add_days
      split: option.splits if_splits)

section \<open>Facts about the sanitisation of text\<close>

lemma not_control_angle: "is_control c \<Longrightarrow> \<not> is_angle c"
  by (auto simp: is_control_def is_angle_def code_def)

lemma decode_entities_Nil: "decode_entities [] = []"
  by code_simp

lemma sanitize_eq:
  "sanitizeTextContent s =
     take 5000 (trim (decode_entities (filter (\<lambda>c. \<not> is_control c) (filter (\<lambda>c. \<not> is_angle c) s))))"
  by (simp add: sanitizeTextContent_def decode_entities_def replace_all_Atom decode_entities_Nil[unfolded decode_entities_def] trim_def)

lemma decode_entities_chars:
  assumes "c \<in> set (decode_entities s)"
  shows "c \<in> set s \<or> c \<in> {CHR 0x27, CHR ''>'', CHR ''<'', CHR ''&'', CHR 0x22}"
  using assms replace_all_subset unfolding decode_entities_def
  by (auto dest!: subsetD[OF replace_all_subset])

lemma sanitize_no_control: "c \<in> set (sanitizeTextContent s) \<Longrightarrow> \<not> is_control c"
proof -
  assume "c \<in> set (sanitizeTextContent s)"
  then have "c \<in> set (decode_entities (filter (\<lambda>c. \<not> is_control c) (filter (\<lambda>c. \<not> is_angle c) s)))"
    unfolding sanitize_eq using set_trim by (auto dest!: in_set_takeD)
  then have "c \<in> set (filter (\<lambda>c. \<not> is_control c) (filter (\<lambda>c. \<not> is_angle c) s))
            \<or> c \<in> {CHR 0x27, CHR ''>'', CHR ''<'', CHR ''&'', CHR 0x22}"
    by (rule decode_entities_chars)
  then show ?thesis
    by (auto simp: is_control_def code_def)
qed

lemma sanitize_length: "length (sanitizeTextContent s) \<le> 5000"
  by (simp add: sanitize_eq)

lemma sanitize_drop_control:
  "is_control c \<Longrightarrow> sanitizeTextContent (a @ c # b) = sanitizeTextContent (a @ b)"
  by (simp add: sanitize_eq not_control_angle)

section \<open>Facts about the normalizer\<close>

lemma small_array_strategy_small:
  "length xs \<le> 100 \<Longrightarrow> extractEmailData parse (JArr xs) = small_array_strategy parse xs"
  by (simp add: extractEmailData_def parse_body_def array_stage_def small_array_strategy_def)

lemma substring_ok_None [simp]: "substring_ok None"
  by (simp add: substring_ok_def)

lemma substring_ok_JStr [simp]: "substring_ok (map_option JStr x)"
  by (cases x) (simp_all add: substring_ok_def)

lemma substring_ok_assign_match: "substring_ok old \<Longrightarrow> substring_ok (assign_match r s old)"
  by (simp add: assign_match_def split: option.splits)

lemma substring_ok_map_option [simp]: "substring_ok (map_option (\<lambda>g. JStr (f g)) x)"
  by (cases x) (simp_all add: substring_ok_def)

lemma large_array_fields_ok:
  "substring_ok (f_from (large_array_fields s no_fields))"
  "substring_ok (f_to (large_array_fields s no_fields))"
  "substring_ok (f_subject (large_array_fields s no_fields))"
  by (simp_all add: large_array_fields_def no_fields_def substring_ok_assign_match)

lemma fallback_fields_ok:
  assumes "substring_ok (f_from fs)" "substring_ok (f_to fs)" "substring_ok (f_subject fs)"
  shows "substring_ok (f_from (fallback_fields pb fs))"
    "substring_ok (f_to (fallback_fields pb fs))"
    "substring_ok (f_subject (fallback_fields pb fs))"
  using assms by (simp_all add: fallback_fields_def Let_def split: option.splits)

lemma ex_len: "length example_large_array = 101"
  by (simp add: example_large_array_def)

lemma ex_large: "extractEmailData parse_rejecting (JArr example_large_array) =
     Inr \<lparr> f_from = Some (JStr ''ann@example.org''), f_to = Some (JStr ''bob@tasks.example.org''),
           f_subject = Some (JStr ''Hi''), f_text = None, f_html = None \<rparr>"
  by code_simp

lemma ex_small: "small_array_strategy parse_rejecting example_large_array =
     Inr \<lparr> f_from = Some (JStr ''ann@example.org''), f_to = Some (JStr ''bob@tasks.example.org''),
           f_subject = Some (JStr ''Hi''), f_text = Some (JStr ''body text''), f_html = None \<rparr>"
  by code_simp


lemma sanitizeSubject_nonempty: "sanitizeSubject s \<noteq> []"
  by (simp add: sanitizeSubject_def Let_def)

section \<open>Facts about the validation of addresses\<close>

lemma rmatch_consumes:
  "atoms_sat P r \<Longrightarrow> st' \<in> set (rmatch r st) \<Longrightarrow>
     \<exists>u. fst (snd st) = u @ fst (snd st') \<and> (\<forall>x \<in> set u. P x)"
proof (induction r st arbitrary: st' rule: rmatch.induct)
  case (1 p st)
  then show ?case
    by (cases "fst (snd st)") (auto simp: rmatch_basic split: if_splits)
next
  case (2 st)
  then show ?case by (simp add: rmatch_basic)
next
  case (3 r1 r2 st)
  from 3(4) obtain st1 where s1: "st1 \<in> set (rmatch r1 st)" and s2: "st' \<in> set (rmatch r2 st1)"
    by (auto simp: rmatch_basic)
  from 3(1)[OF _ s1] 3(3) obtain u1 where u1: "fst (snd st) = u1 @ fst (snd st1)" "\<forall>x \<in> set u1. P x"
    by auto
  from 3(2)[OF s1 _ s2] 3(3) obtain u2 where u2: "fst (snd st1) = u2 @ fst (snd st')" "\<forall>x \<in> set u2. P x"
    by auto
  from u1 u2 show ?case
    by (intro exI[of _ "u1 @ u2"]) auto
next
  case (4 r1 r2 st)
  from 4(4) consider "st' \<in> set (rmatch r1 st)" | "st' \<in> set (rmatch r2 st)"
    by (auto simp: rmatch_basic)
  then show ?case
  proof cases
    case 1
    from 4(1)[OF _ this] 4(3) show ?thesis by simp
  next
    case 2
    from 4(2)[OF _ this] 4(3) show ?thesis by simp
  qed
next
  case (5 r st)
  from 5(4) consider "st' = st"
    | st1 where "st1 \<in> set (rmatch r st)" "length (fst (snd st1)) < length (fst (snd st))"
        "st' \<in> set (rmatch (Star r) st1)"
    by (subst (asm) rmatch.simps) (auto split: if_splits)
  then show ?case
  proof cases
    case 1
    then show ?thesis by simp
  next
    case 2
    from 5(1)[OF _ 2(1)] 5(3) obtain u1 where u1: "fst (snd st) = u1 @ fst (snd st1)" "\<forall>x \<in> set u1. P x"
      by auto
    from 5(2)[OF 2(1) 2(2) _ 2(3)] 5(3) obtain u2 where u2: "fst (snd st1) = u2 @ fst (snd st')" "\<forall>x \<in> set u2. P x"
      by auto
    from u1 u2 show ?thesis
      by (intro exI[of _ "u1 @ u2"]) auto
  qed
next
  case (6 r st)
  from 6(4) consider "st' = st"
    | st1 where "st1 \<in> set (rmatch r st)" "length (fst (snd st1)) < length (fst (snd st))"
        "st' \<in> set (rmatch (Lazy r) st1)"
    by (subst (asm) rmatch.simps) (auto split: if_splits)
  then show ?case
  proof cases
    case 1
    then show ?thesis by simp
  next
    case 2
    from 6(1)[OF _ 2(1)] 6(3) obtain u1 where u1: "fst (snd st) = u1 @ fst (snd st1)" "\<forall>x \<in> set u1. P x"
      by auto
    from 6(2)[OF 2(1) 2(2) _ 2(3)] 6(3) obtain u2 where u2: "fst (snd st1) = u2 @ fst (snd st')" "\<forall>x \<in> set u2. P x"
      by auto
    from u1 u2 show ?thesis
      by (intro exI[of _ "u1 @ u2"]) auto
  qed
next
  case (7 n r st)
  from 7(3) obtain st1 where s1: "st1 \<in> set (rmatch r st)" and e: "fst (snd st') = fst (snd st1)"
    by (auto simp: rmatch_basic)
  from 7(1)[OF _ s1] 7(2) e show ?case by simp
next
  case (8 m st)
  then show ?case by (auto simp: rmatch_basic split: option.splits if_splits)
next
  case (9 m st)
  then show ?case by (auto simp: rmatch_basic split: list.splits if_splits)
next
  case (10 r st)
  then show ?case by (auto simp: rmatch_basic split: if_splits)
qed


lemma rmatch_Atom_shorter:
  "st' \<in> set (rmatch (Atom p) st) \<Longrightarrow> length (fst (snd st')) < length (fst (snd st))"
  by (cases "fst (snd st)") (auto simp: rmatch_basic split: if_splits)

lemma rmatch_Seq_elim:
  assumes "st' \<in> set (rmatch (Seq r1 r2) st)"
  obtains st1 where "st1 \<in> set (rmatch r1 st)" "st' \<in> set (rmatch r2 st1)"
  using assms by (auto simp: rmatch_basic)

lemma rmatch_Eol_rest: "st' \<in> set (rmatch (Eol False) st) \<Longrightarrow> fst (snd st') = []"
  by (cases "fst (snd st)") (auto simp: rmatch_basic)

lemma rfind_anchored:
  "rfind (Seq (Bol False) r) None s \<noteq> None \<Longrightarrow> rmatch r (None, s, []) \<noteq> []"
  by (cases s) (auto simp: rmatch_basic rfind_Bol_later split: list.splits)


lemma rmatch_ends_eol: "ends_eol r \<Longrightarrow> st' \<in> set (rmatch r st) \<Longrightarrow> fst (snd st') = []"
proof (induction r arbitrary: st st')
  case (Seq r1 r2)
  from Seq.prems(2) obtain st1 where s1: "st1 \<in> set (rmatch r1 st)" and s2: "st' \<in> set (rmatch r2 st1)"
    by (rule rmatch_Seq_elim)
  from Seq.prems(1) consider "ends_eol r2" | "r2 = Eps" "ends_eol r1"
    by auto
  then show ?case
  proof cases
    case 1
    from Seq.IH(2)[OF this s2] show ?thesis .
  next
    case 2
    with s2 have "st' = st1" by (simp add: rmatch_basic)
    with Seq.IH(1)[OF 2(2) s1] show ?thesis by simp
  qed
next
  case (Eol m)
  then show ?case by (auto dest: rmatch_Eol_rest)
qed simp_all

lemma emailRegex_eq:
  "emailRegex =
     Seq (Bol False)
       (Seq (plus (Atom (\<lambda>c. is_alpha c \<or> is_digit c \<or> c \<in> set ''._%+-'')))
          (Seq (chr CHR ''@'') email_tail))"
  by (simp add: emailRegex_def seqs_def email_tail_def)

lemma email_shape:
  assumes "test emailRegex s"
  shows "\<exists>l d. s = l @ CHR ''@'' # d \<and> l \<noteq> [] \<and> (\<forall>x \<in> set l. local_char x)
               \<and> (\<forall>x \<in> set d. domain_char x)"
proof -
  let ?L = "Atom (\<lambda>c. is_alpha c \<or> is_digit c \<or> c \<in> set ''._%+-'')"
  from assms have "rmatch (Seq (plus ?L) (Seq (chr CHR ''@'') email_tail)) (None, s, []) \<noteq> []"
    unfolding test_def emailRegex_eq by (rule rfind_anchored)
  then obtain st' where st': "st' \<in> set (rmatch (Seq (plus ?L) (Seq (chr CHR ''@'') email_tail)) (None, s, []))"
    by (cases "rmatch (Seq (plus ?L) (Seq (chr CHR ''@'') email_tail)) (None, s, [])") auto
  then obtain st1 where st1: "st1 \<in> set (rmatch (plus ?L) (None, s, []))"
    and r1: "st' \<in> set (rmatch (Seq (chr CHR ''@'') email_tail) st1)"
    by (rule rmatch_Seq_elim)
  from r1 obtain st2 where st2: "st2 \<in> set (rmatch (chr CHR ''@'') st1)"
    and r2: "st' \<in> set (rmatch email_tail st2)"
    by (rule rmatch_Seq_elim)
  from st1 obtain sa where sa: "sa \<in> set (rmatch ?L (None, s, []))"
    and sb: "st1 \<in> set (rmatch (Star ?L) sa)"
    unfolding plus_def by (rule rmatch_Seq_elim)
  have "atoms_sat local_char (plus ?L)"
    by (simp add: plus_def local_char_def)
  from rmatch_consumes[OF this st1] obtain l where l: "s = l @ fst (snd st1)" "\<forall>x \<in> set l. local_char x"
    by auto
  have "atoms_sat local_char (Star ?L)"
    by (simp add: local_char_def)
  from rmatch_consumes[OF this sb] have "length (fst (snd st1)) \<le> length (fst (snd sa))"
    by auto
  with rmatch_Atom_shorter[OF sa] have "length (fst (snd st1)) < length s"
    by simp
  with l have lne: "l \<noteq> []" by auto
  from st2 have at: "fst (snd st1) = CHR ''@'' # fst (snd st2)"
    by (cases "fst (snd st1)") (auto simp: chr_def rmatch_basic split: if_splits)
  have "atoms_sat domain_char email_tail"
    by (simp add: email_tail_def plus_def chr_def domain_char_def)
  from rmatch_consumes[OF this r2] obtain d where d: "fst (snd st2) = d @ fst (snd st')" "\<forall>x \<in> set d. domain_char x"
    by auto
  have "ends_eol email_tail"
    by (simp add: email_tail_def plus_def chr_def)
  from rmatch_ends_eol[OF this r2] have "fst (snd st') = []" .
  with l lne at d show ?thesis by auto
qed

lemma lower_char_idem: "lower_char (lower_char c) = lower_char c"
  by (auto simp: lower_char_def is_upper_def code_def)

lemma not_ws_local: "local_char c \<Longrightarrow> \<not> is_ws c"
  by (auto simp: local_char_def is_alpha_def is_upper_def is_lower_def is_digit_def is_ws_def code_def)

lemma not_ws_domain: "domain_char c \<Longrightarrow> \<not> is_ws c"
  by (auto simp: domain_char_def is_alpha_def is_upper_def is_lower_def is_digit_def is_ws_def code_def)

lemma trim_id:
  assumes "s \<noteq> []" "\<not> is_ws (hd s)" "\<not> is_ws (last s)"
  shows "trim s = s"
proof -
  have "dropWhile is_ws s = s"
    using assms by (simp add: dropWhile_eq_self_iff)
  moreover have "dropWhile is_ws (rev s) = rev s"
    using assms by (simp add: dropWhile_eq_self_iff hd_rev)
  ultimately show ?thesis by (simp add: trim_def)
qed

lemma validate_idem:
  assumes "validateAndSanitizeEmail x = Some c"
  shows "validateAndSanitizeEmail c = Some c"
proof -
  from assms have c: "c = toLowerCase (trim x)" and t: "test emailRegex c" and n: "length c \<le> 254"
    by (auto simp: validateAndSanitizeEmail_def Let_def split: if_splits)
  from email_shape[OF t] obtain l d where s: "c = l @ CHR ''@'' # d" "l \<noteq> []"
    "\<forall>x \<in> set l. local_char x" "\<forall>x \<in> set d. domain_char x"
    by blast
  have at: "\<not> is_ws (CHR ''@'')"
    by (simp add: is_ws_def code_def)
  have "\<not> is_ws (hd c)"
    using s by (cases l) (auto simp: not_ws_local)
  moreover have "\<not> is_ws (last c)"
    using s at by (cases d rule: rev_cases) (auto simp: not_ws_domain)
  moreover have "c \<noteq> []" using s by simp
  ultimately have "trim c = c" by (intro trim_id)
  moreover have "toLowerCase c = c"
    unfolding c by (simp add: toLowerCase_def lower_char_idem)
  ultimately show ?thesis
    using t n \<open>c \<noteq> []\<close> by (simp add: validateAndSanitizeEmail_def)
qed


lemma rexec_userIdRegex:
  assumes "test emailRegex c"
  shows "rexec userIdRegex c = Some [(1, takeWhile (\<lambda>x. x \<noteq> CHR ''@'') c)]"
    and "takeWhile (\<lambda>x. x \<noteq> CHR ''@'') c \<noteq> []"
proof -
  let ?NA = "Atom (\<lambda>c. c \<noteq> CHR ''@'')"
  from email_shape[OF assms] obtain l d where s: "c = l @ CHR ''@'' # d" "l \<noteq> []"
    "\<forall>x \<in> set l. local_char x"
    by blast
  have na: "x \<noteq> CHR ''@''" if "x \<in> set l" for x
    using s(3) that
    by (auto simp: local_char_def is_alpha_def is_upper_def is_lower_def is_digit_def code_def)
  then have tw: "takeWhile (\<lambda>x. x \<noteq> CHR ''@'') c = l"
    unfolding s(1) by (simp add: takeWhile_append2)
  from s(2) obtain x1 l' where l: "l = x1 # l'" by (cases l) auto
  have dw: "dropWhile (\<lambda>c. c \<noteq> CHR ''@'') (l' @ CHR ''@'' # d) = CHR ''@'' # d"
    using na l by (simp add: dropWhile_append3)
  obtain q' rest where star: "rmatch (Star ?NA) (Some x1, l' @ CHR ''@'' # d, []) = (q', CHR ''@'' # d, []) # rest"
    using rmatch_Star_Atom_hd[of "\<lambda>c. c \<noteq> CHR ''@''" "Some x1" "l' @ CHR ''@'' # d" "[]"] dw by auto
  have pl: "rmatch (plus ?NA) (None, c, []) = (q', CHR ''@'' # d, []) # rest"
    using na[of x1] l s(1) star by (simp add: plus_def rmatch_basic)
  have len: "length c - length (CHR ''@'' # d) = length l"
    using s(1) by simp
  have "\<exists>rest'. rmatch userIdRegex (None, c, []) = (Some CHR ''@'', d, [(1, l)]) # rest'"
    using pl len s(1)
    by (simp add: userIdRegex_def seqs_def rmatch_basic chr_def)
  then obtain rest' where m: "rmatch userIdRegex (None, c, []) = (Some CHR ''@'', d, [(1, l)]) # rest'"
    by blast
  have "c \<noteq> []" using s(1) by simp
  then obtain y ys where c: "c = y # ys" by (cases c) auto
  have "rexec userIdRegex c = Some [(1, l)]"
    using m unfolding c by (simp add: rexec_def)
  with tw show "rexec userIdRegex c = Some [(1, takeWhile (\<lambda>x. x \<noteq> CHR ''@'') c)]"
    by simp
  from tw s(2) show "takeWhile (\<lambda>x. x \<noteq> CHR ''@'') c \<noteq> []"
    by simp
qed

lemma extractUserIdFromEmail_eq:
  "extractUserIdFromEmail e =
     map_option (takeWhile (\<lambda>x. x \<noteq> CHR ''@'')) (validateAndSanitizeEmail e)"
proof (cases "validateAndSanitizeEmail e")
  case None
  then show ?thesis by (simp add: extractUserIdFromEmail_def)
next
  case (Some c)
  then have "test emailRegex c"
    by (auto simp: validateAndSanitizeEmail_def Let_def split: if_splits)
  from rexec_userIdRegex(1)[OF this] Some show ?thesis
    by (simp add: extractUserIdFromEmail_def group_def)
qed

lemma extractUserIdFromEmail_validated:
  assumes "validateAndSanitizeEmail x = Some c"
  shows "extractUserIdFromEmail c = Some (takeWhile (\<lambda>x. x \<noteq> CHR ''@'') c)"
    and "takeWhile (\<lambda>x. x \<noteq> CHR ''@'') c \<noteq> []"
proof -
  from assms have t: "test emailRegex c"
    by (auto simp: validateAndSanitizeEmail_def Let_def split: if_splits)
  show "extractUserIdFromEmail c = Some (takeWhile (\<lambda>x. x \<noteq> CHR ''@'') c)"
    by (simp add: extractUserIdFromEmail_eq validate_idem[OF assms])
  show "takeWhile (\<lambda>x. x \<noteq> CHR ''@'') c \<noteq> []"
    by (rule rexec_userIdRegex(2)[OF t])
qed

lemma code_lower_char:
  "code (lower_char x) =
     (if is_upper x \<or> (192 \<le> code x \<and> code x \<le> 222 \<and> code x \<noteq> 215) then code x + 32
      else code x)"
  by (auto simp: lower_char_def is_upper_def code_def)

lemma lower_char_at: "lower_char x = CHR ''@'' \<longleftrightarrow> x = CHR ''@''"
proof
  assume "lower_char x = CHR ''@''"
  then have "code (lower_char x) = 64"
    by (simp add: code_def)
  then have "code x = code (CHR ''@'')"
    by (auto simp: code_lower_char is_upper_def code_def[of "CHR ''@''"] split: if_splits)
  then show "x = CHR ''@''"
    unfolding code_def by (simp only: of_char_eq_iff)
next
  assume "x = CHR ''@''"
  then show "lower_char x = CHR ''@''"
    by (simp add: lower_char_def is_upper_def code_def)
qed

lemma extractUserIdFromEmail_lower:
  "extractUserIdFromEmail e = Some u \<Longrightarrow>
     u = toLowerCase (takeWhile (\<lambda>x. x \<noteq> CHR ''@'') (trim e))"
proof -
  assume "extractUserIdFromEmail e = Some u"
  then obtain c where c: "validateAndSanitizeEmail e = Some c" and u: "u = takeWhile (\<lambda>x. x \<noteq> CHR ''@'') c"
    by (auto simp: extractUserIdFromEmail_eq)
  from c have "c = toLowerCase (trim e)"
    by (auto simp: validateAndSanitizeEmail_def Let_def split: if_splits)
  with u show ?thesis
    by (simp add: toLowerCase_def takeWhile_map o_def lower_char_at)
qed

section \<open>The claims\<close>

text \<open>
  C1. The importance inferred from a subject is 9 when the subject contains \<open>urgent\<close>,
  \<open>asap\<close> or \<open>immediate\<close> in any case, else 7 when it contains \<open>high\<close> or
  \<open>important\<close>, else 3 when it contains \<open>low\<close> or \<open>minor\<close>, else 5. The subject
  is the text handed to the inference, which in \<open>parseEmailToTask\<close> is the cleaned
  subject, the title of the task. The importance of every task produced is that value
  and lies between 1 and 10.
\<close>

theorem C1_importance:
  "extractImportanceFromSubject s =
     (if contains_ci ''urgent'' s \<or> contains_ci ''asap'' s \<or> contains_ci ''immediate'' s then 9
      else if contains_ci ''high'' s \<or> contains_ci ''important'' s then 7
      else if contains_ci ''low'' s \<or> contains_ci ''minor'' s then 3
      else 5)
   \<and> (parseEmailToTask clk email = Inr task \<longrightarrow>
        importance task = extractImportanceFromSubject (title task)
        \<and> 1 \<le> importance task \<and> importance task \<le> 10)"
proof -
  have a: "extractImportanceFromSubject s =
     (if contains_ci ''urgent'' s \<or> contains_ci ''asap'' s \<or> contains_ci ''immediate'' s then 9
      else if contains_ci ''high'' s \<or> contains_ci ''important'' s then 7
      else if contains_ci ''low'' s \<or> contains_ci ''minor'' s then 3
      else 5)" for s
    by (simp add: extractImportanceFromSubject_def urgentRegex_def highRegex_def lowRegex_def
        alts_def test_Alt test_lit_ci)
  have b: "extractImportanceFromSubject s \<in> {3, 5, 7, 9}" for s
    by (simp add: extractImportanceFromSubject_def)
  have "parseEmailToTask clk email = Inr task \<longrightarrow>
        importance task = extractImportanceFromSubject (title task)
        \<and> 1 \<le> importance task \<and> importance task \<le> 10"
    using b[of "cleanSubject_of (e_subject email)"]
    by (auto simp: parseEmailToTask_def Let_def split: if_splits)
  with a show ?thesis by blast
qed


theorem C1_witness:
  "parseEmailToTask example_clock (example_message ''Re: Asap - highly important'' None)
     = Inr \<lparr> title = ''Asap - highly important'', description = ''No description provided'',
             area = ''inbox'', importance = 9, dueDate = None,
             emailSource = \<lparr> sender = ''ann@example.org'', receivedAt = Time 1709210096789,
                              originalSubject = ''Re: Asap - highly important'' \<rparr> \<rparr>
   \<and> extractImportanceFromSubject ''Asap - highly important'' = 9"
proof -
  have h: "parseEmailToTask example_clock (example_message ''Re: Asap - highly important'' None)
     = Inr \<lparr> title = ''Asap - highly important'', description = ''No description provided'',
             area = ''inbox'', importance = 9, dueDate = None,
             emailSource = \<lparr> sender = ''ann@example.org'', receivedAt = Time 1709210096789,
                              originalSubject = ''Re: Asap - highly important'' \<rparr> \<rparr>"
    by code_simp
  from C1_importance[of _ example_clock "example_message ''Re: Asap - highly important'' None",
      THEN conjunct2, rule_format, OF h]
  show ?thesis using h by simp
qed

text \<open>
  C2, as the code has it. For an array of more than 100 and at most 1000 elements the
  normalizer does not scan the elements and adopts none of them as the working body. It
  serialises the whole array and takes \<open>from\<close>, \<open>to\<close>, \<open>subject\<close>, \<open>text\<close> (key
  \<open>body-plain\<close>) and \<open>html\<close> (key \<open>body-html\<close>) from the first occurrence of
  \<open>"key": "value"\<close> in that text, the key in any case; when none of \<open>from\<close>, \<open>to\<close>
  and \<open>subject\<close> is found, the fallback patterns run on the first 50000 characters
  of the same text. The extraction does not raise on this path.
\<close>

theorem C2_large_array_text_search:
  assumes "100 < length xs" and "length xs \<le> 1000"
  shows "extractEmailData parse (JArr xs) =
           Inr (let fs = large_array_fields (stringify (JArr xs)) no_fields
                in if truthy (f_from fs) \<or> truthy (f_to fs) \<or> truthy (f_subject fs) then fs
                   else fallback_fields (JArr xs) fs)"
proof -
  let ?fs = "large_array_fields (stringify (JArr xs)) no_fields"
  have a: "array_stage parse (parse_body parse (JArr xs)) no_fields = (JArr xs, ?fs)"
    using assms(1) by (simp add: array_stage_def parse_body_def del: stringify.simps)
  have b: "arraylike_stage parse (JArr xs) ?fs = ?fs"
    by (simp add: arraylike_stage_def del: stringify.simps)
  have c: "massive_stage parse (JArr xs) ?fs = (JArr xs, ?fs)"
    using assms(2) by (simp add: massive_stage_def del: stringify.simps)
  have d: "format_stage parse (JArr xs) ?fs = other_stage parse (JArr xs) ?fs"
    by (simp add: format_stage_def del: stringify.simps)
  have e: "other_stage parse (JArr xs) ?fs =
             Inr (if truthy (f_from ?fs) \<or> truthy (f_to ?fs) \<or> truthy (f_subject ?fs) then ?fs
                  else fallback_fields (JArr xs) ?fs)"
  proof -
    note l = large_array_fields_ok[of "stringify (JArr xs)"]
    note f = fallback_fields_ok[OF l, of "JArr xs"]
    from l f show ?thesis
      by (auto simp: other_stage_def c Let_def simp del: stringify.simps)
  qed
  show ?thesis
    by (simp add: extractEmailData_def a b d e Let_def del: stringify.simps)
qed

text \<open>
  C2, as the specification states it, fails: on an array of 101 elements whose first
  element is a simple e-mail object with a property \<open>text\<close>, the strategy for small
  arrays would adopt the object and return its text, while the code returns no text.
  (The array holds no string, so nothing is parsed.)
\<close>

theorem C2_counterexample:
  "100 < length example_large_array \<and> length example_large_array < 1000
   \<and> extractEmailData parse_rejecting (JArr example_large_array)
       \<noteq> small_array_strategy parse_rejecting example_large_array"
  by (simp add: ex_len ex_large ex_small)


theorem C2_witness:
  "100 < length example_large_array \<and> length example_large_array \<le> 1000
   \<and> extractEmailData parse_rejecting (JArr example_large_array) =
     Inr \<lparr> f_from = Some (JStr ''ann@example.org''), f_to = Some (JStr ''bob@tasks.example.org''),
           f_subject = Some (JStr ''Hi''), f_text = None, f_html = None \<rparr>"
proof -
  have h1: "100 < length example_large_array" and h2: "length example_large_array \<le> 1000"
    by (simp_all add: ex_len)
  have "(let fs = large_array_fields (stringify (JArr example_large_array)) no_fields
         in if truthy (f_from fs) \<or> truthy (f_to fs) \<or> truthy (f_subject fs) then fs
            else fallback_fields (JArr example_large_array) fs) =
     \<lparr> f_from = Some (JStr ''ann@example.org''), f_to = Some (JStr ''bob@tasks.example.org''),
       f_subject = Some (JStr ''Hi''), f_text = None, f_html = None \<rparr>"
    by code_simp
  with C2_large_array_text_search[OF h1 h2, of parse_rejecting] h1 h2 show ?thesis
    by simp
qed

text \<open>
  C3. The user identifier taken from a recipient address is the local part in the
  casing in which the address was received. The code does not do that:
  \<open>extractUserIdFromEmail\<close> validates the address first, and the validation turns it to
  lower case, so the identifier is always the local part turned to lower case, although
  the comment at the return statement promises the original case-sensitive identifier.
  The theorem runs the function on the address of the diagnostic report of the
  repository and gives its value on every address.
\<close>

theorem C3_user_id_lowercased:
  "extractUserIdFromEmail ''WY0p7evP0vaVLRR0OGF15viOXSA2@sandbox.mailgun.org''
     = Some ''wy0p7evp0vavlrr0ogf15vioxsa2''
   \<and> (extractUserIdFromEmail e = Some u \<longrightarrow>
        u = toLowerCase (takeWhile (\<lambda>x. x \<noteq> CHR ''@'') (trim e)))"
proof -
  have "extractUserIdFromEmail ''WY0p7evP0vaVLRR0OGF15viOXSA2@sandbox.mailgun.org''
     = Some ''wy0p7evp0vavlrr0ogf15vioxsa2''"
    by code_simp
  then show ?thesis
    using extractUserIdFromEmail_lower[of e u] by blast
qed

theorem C3_witness:
  "extractUserIdFromEmail '' Bob.Smith@Tasks.Example.org'' = Some ''bob.smith''
   \<and> takeWhile (\<lambda>x. x \<noteq> CHR ''@'') (trim '' Bob.Smith@Tasks.Example.org'') = ''Bob.Smith''"
proof -
  have h: "extractUserIdFromEmail '' Bob.Smith@Tasks.Example.org'' = Some ''bob.smith''"
    by code_simp
  have t: "takeWhile (\<lambda>x. x \<noteq> CHR ''@'') (trim '' Bob.Smith@Tasks.Example.org'') = ''Bob.Smith''"
    by code_simp
  from C3_user_id_lowercased[of "'' Bob.Smith@Tasks.Example.org''" "''bob.smith''",
      THEN conjunct2, rule_format, OF h]
  have "''bob.smith'' = toLowerCase ''Bob.Smith''"
    unfolding t .
  with h t show ?thesis by simp
qed

text \<open>
  C4. When a task is produced and has a due date, the due date is a valid date: it holds
  a time value in the range of time values and is never the invalid date. For the tasks
  produced from an explicit marker this is so because no task is produced when the
  digits give no date: \<open>new Date\<close> returns the invalid date for month 13 or day 45,
  and the log line of \<open>parseEmailToTask\<close> then raises a \<open>RangeError\<close> in
  \<open>toISOString\<close>, so the function returns no task (second part of the theorem).
\<close>

theorem C4_due_date_valid:
  "(parseEmailToTask clk email = Inr task \<and> dueDate task = Some d \<longrightarrow> valid_date d)
   \<and> parseEmailToTask clk (email\<lparr> e_subject := ''Pay the rent, due: 2024-13-45'' \<rparr>) = Inl RangeError"
proof -
  have "extractDueDateFromSubject clk (cleanSubject_of ''Pay the rent, due: 2024-13-45'') = Some Invalid_Date"
    by code_simp
  then have "parseEmailToTask clk (email\<lparr> e_subject := ''Pay the rent, due: 2024-13-45'' \<rparr>) = Inl RangeError"
    by (simp add: parseEmailToTask_def)
  moreover have "parseEmailToTask clk email = Inr task \<and> dueDate task = Some d \<longrightarrow> valid_date d"
    by (auto simp: parseEmailToTask_def Let_def extractDueDate_valid split: if_splits)
  ultimately show ?thesis by simp
qed

theorem C4_witness:
  "parseEmailToTask example_clock (example_message ''Pay the rent, due: 2024-02-30'' None)
     = Inr \<lparr> title = ''Pay the rent, due: 2024-02-30'', description = ''No description provided'',
             area = ''inbox'', importance = 5, dueDate = Some (Time 1709251200000),
             emailSource = \<lparr> sender = ''ann@example.org'', receivedAt = Time 1709210096789,
                              originalSubject = ''Pay the rent, due: 2024-02-30'' \<rparr> \<rparr>
   \<and> valid_date (Time 1709251200000)"
proof -
  have h: "parseEmailToTask example_clock (example_message ''Pay the rent, due: 2024-02-30'' None)
     = Inr \<lparr> title = ''Pay the rent, due: 2024-02-30'', description = ''No description provided'',
             area = ''inbox'', importance = 5, dueDate = Some (Time 1709251200000),
             emailSource = \<lparr> sender = ''ann@example.org'', receivedAt = Time 1709210096789,
                              originalSubject = ''Pay the rent, due: 2024-02-30'' \<rparr> \<rparr>"
    by code_simp
  from C4_due_date_valid[of example_clock "example_message ''Pay the rent, due: 2024-02-30'' None" _ "Time 1709251200000",
      THEN conjunct1, rule_format, OF conjI, OF h]
  show ?thesis using h by simp
qed

text \<open>
  C5. Title cleaning strips one leading reply or forward marker and no more: the title
  of every task produced is the sanitised subject with one marker stripped
  (\<open>strip_marker\<close>, which removes a single marker) and trimmed, or the default title
  when nothing is left; from the subject \<open>Fwd: Fwd: Meeting\<close> every clock and message
  give the title \<open>Fwd: Meeting\<close>.
\<close>

theorem C5_title_strips_one_marker:
  "(\<exists>task. parseEmailToTask clk (email\<lparr> e_subject := ''Fwd: Fwd: Meeting'' \<rparr>) = Inr task
           \<and> title task = ''Fwd: Meeting'')
   \<and> (parseEmailToTask clk email = Inr task' \<longrightarrow>
        title task' =
          (if trim (strip_marker (sanitizeSubject (e_subject email))) = [] then ''Email Task''
           else trim (strip_marker (sanitizeSubject (e_subject email)))))"
proof -
  have a: "cleanSubject_of ''Fwd: Fwd: Meeting'' = ''Fwd: Meeting''"
    by code_simp
  have b: "extractDueDateFromSubject clk ''Fwd: Meeting'' = None"
    by code_simp
  have c: "cleanSubject_of s =
             (if trim (strip_marker (sanitizeSubject s)) = [] then ''Email Task''
              else trim (strip_marker (sanitizeSubject s)))" for s
    by (simp add: cleanSubject_of_def replace_first_prefix)
  show ?thesis
    by (auto simp: parseEmailToTask_def Let_def a b c[symmetric] split: if_splits)
qed

theorem C5_witness:
  "parseEmailToTask example_clock (example_message ''RE:  re: Lunch'' None)
     = Inr \<lparr> title = ''re: Lunch'', description = ''No description provided'', area = ''inbox'',
             importance = 5, dueDate = None,
             emailSource = \<lparr> sender = ''ann@example.org'', receivedAt = Time 1709210096789,
                              originalSubject = ''RE:  re: Lunch'' \<rparr> \<rparr>
   \<and> strip_marker ''RE:  re: Lunch'' = ''re: Lunch''"
proof -
  have h: "parseEmailToTask example_clock (example_message ''RE:  re: Lunch'' None)
     = Inr \<lparr> title = ''re: Lunch'', description = ''No description provided'', area = ''inbox'',
             importance = 5, dueDate = None,
             emailSource = \<lparr> sender = ''ann@example.org'', receivedAt = Time 1709210096789,
                              originalSubject = ''RE:  re: Lunch'' \<rparr> \<rparr>"
    by code_simp
  have s: "sanitizeSubject ''RE:  re: Lunch'' = ''RE:  re: Lunch''"
    by code_simp
  have t: "trim ''re: Lunch'' = ''re: Lunch''"
    by code_simp
  have e: "e_subject (example_message ''RE:  re: Lunch'' None) = ''RE:  re: Lunch''"
    by (simp add: example_message_def)
  have m: "strip_marker ''RE:  re: Lunch'' = ''re: Lunch''"
    by code_simp
  from C5_title_strips_one_marker[of example_clock "example_message ''RE:  re: Lunch'' None",
      THEN conjunct2, rule_format, OF h]
  have "''re: Lunch'' =
          (if trim (strip_marker ''RE:  re: Lunch'') = [] then ''Email Task''
           else trim (strip_marker ''RE:  re: Lunch''))"
    unfolding e s by simp
  with h m show ?thesis by simp
qed





text \<open>
  C7. The handler has two distinct client errors, and neither creates a task. When
  \<open>from\<close> or \<open>to\<close> fails validation after extraction and sanitisation (the sanitised
  subject is never empty), the reply has status 400 and reports for each of the three
  fields whether it failed. When the fields validate, the database answers, and the
  identifier of the recipient, the part of the validated address before the sign
  \<open>@\<close>, equals no user identifier, not even when case is ignored, the reply has
  status 404 and carries the identifier.
\<close>

theorem C7_client_errors:
  assumes "extractEmailData parse body = Inr fs"
  shows "(validateAndSanitizeEmail (str_or_empty (f_from fs)) = None
          \<or> validateAndSanitizeEmail (str_or_empty (f_to fs)) = None
          \<or> sanitizeSubject (str_or_empty (f_subject fs)) = [] \<longrightarrow>
          processEmailTask parse clk db \<lparr> req_method = POST, req_body = body \<rparr> =
            (Missing_Fields
               (field_report (validateAndSanitizeEmail (str_or_empty (f_from fs)) = None))
               (field_report (validateAndSanitizeEmail (str_or_empty (f_to fs)) = None))
               (field_report (sanitizeSubject (str_or_empty (f_subject fs)) = [])), db))
   \<and> (validateAndSanitizeEmail (str_or_empty (f_from fs)) = Some sFrom
        \<and> validateAndSanitizeEmail (str_or_empty (f_to fs)) = Some sTo
        \<and> \<not> get_fails db \<and> \<not> list_fails db
        \<and> (\<forall>i \<in> set (users db).
               toLowerCase i \<noteq> toLowerCase (takeWhile (\<lambda>x. x \<noteq> CHR ''@'') sTo)) \<longrightarrow>
          processEmailTask parse clk db \<lparr> req_method = POST, req_body = body \<rparr> =
            (User_Not_Found (takeWhile (\<lambda>x. x \<noteq> CHR ''@'') sTo) (take 5 (users db)), db))
   \<and> status (Missing_Fields a b c) = 400 \<and> status (User_Not_Found u us) = 404
   \<and> Missing_Fields a b c \<noteq> User_Not_Found u us"
proof -
  let ?u = "takeWhile (\<lambda>x. x \<noteq> CHR ''@'') sTo"
  have find_none: "(\<forall>i \<in> set (users db). toLowerCase i \<noteq> toLowerCase ?u) \<Longrightarrow>
        find (\<lambda>i. toLowerCase i = toLowerCase ?u) (users db) = None"
    by (auto simp: find_None_iff)
  have notin: "(\<forall>i \<in> set (users db). toLowerCase i \<noteq> toLowerCase ?u) \<Longrightarrow>
        ?u \<notin> set (users db)"
    by auto
  have ex: "validateAndSanitizeEmail (str_or_empty (f_to fs)) = Some sTo \<Longrightarrow>
        extractUserIdFromEmail sTo = Some ?u \<and> ?u \<noteq> []"
    using extractUserIdFromEmail_validated by blast
  show ?thesis
    using assms ex
    by (auto simp: processEmailTask_def Let_def sanitizeSubject_nonempty find_user_def
        find_none notin field_report_def split: option.splits)
qed

theorem C7_witness:
  "processEmailTask parse_rejecting example_clock example_store
     \<lparr> req_method = POST, req_body = example_mail ''not-an-email'' \<rparr>
     = (Missing_Fields ''ok'' ''missing or invalid'' ''ok'', example_store)
   \<and> processEmailTask parse_rejecting example_clock example_store
     \<lparr> req_method = POST, req_body = example_mail ''Carol@tasks.example.org'' \<rparr>
     = (User_Not_Found ''carol'' [''Bob'', ''alice''], example_store)"
proof -
  have e1: "extractEmailData parse_rejecting (example_mail ''not-an-email'') =
      Inr \<lparr> f_from = Some (JStr ''ann@example.org''), f_to = Some (JStr ''not-an-email''),
            f_subject = Some (JStr ''Hi''), f_text = Some (JStr ''body text''), f_html = None \<rparr>"
    by code_simp
  have e2: "extractEmailData parse_rejecting (example_mail ''Carol@tasks.example.org'') =
      Inr \<lparr> f_from = Some (JStr ''ann@example.org''), f_to = Some (JStr ''Carol@tasks.example.org''),
            f_subject = Some (JStr ''Hi''), f_text = Some (JStr ''body text''), f_html = None \<rparr>"
    by code_simp
  have v1: "validateAndSanitizeEmail ''ann@example.org'' = Some ''ann@example.org''"
    by code_simp
  have v2: "validateAndSanitizeEmail ''not-an-email'' = None"
    by code_simp
  have v3: "validateAndSanitizeEmail ''Carol@tasks.example.org'' = Some ''carol@tasks.example.org''"
    by code_simp
  have v4: "takeWhile (\<lambda>x. x \<noteq> CHR ''@'') ''carol@tasks.example.org'' = ''carol''"
    by code_simp
  have v5: "\<forall>i \<in> set (users example_store). toLowerCase i \<noteq> toLowerCase ''carol''"
    by code_simp
  have v6: "sanitizeSubject ''Hi'' = ''Hi''"
    by code_simp
  from C7_client_errors[OF e1, where clk = example_clock and db = example_store, THEN conjunct1]
  have r1: "processEmailTask parse_rejecting example_clock example_store
     \<lparr> req_method = POST, req_body = example_mail ''not-an-email'' \<rparr>
     = (Missing_Fields ''ok'' ''missing or invalid'' ''ok'', example_store)"
    by (simp add: str_or_empty_def v1 v2 v6 field_report_def)
  from C7_client_errors[OF e2, where sFrom = "''ann@example.org''"
      and sTo = "''carol@tasks.example.org''"
      and db = example_store and clk = example_clock, THEN conjunct2, THEN conjunct1]
  have r2: "processEmailTask parse_rejecting example_clock example_store
     \<lparr> req_method = POST, req_body = example_mail ''Carol@tasks.example.org'' \<rparr>
     = (User_Not_Found ''carol'' [''Bob'', ''alice''], example_store)"
    using v5 by (simp add: str_or_empty_def v1 v3 v4 example_store_def)
  from r1 r2 show ?thesis by simp
qed

text \<open>
  C8. When both \<open>text\<close> and \<open>html\<close> are absent or empty, the description of the
  task produced is the placeholder.
\<close>

theorem C8_placeholder_description:
  assumes "e_text email = None \<or> e_text email = Some []"
    and "e_html email = None \<or> e_html email = Some []"
    and "parseEmailToTask clk email = Inr task"
  shows "description task = ''No description provided''"
proof -
  have a: "cleanEmailBody [] = ''No description provided''"
    by code_simp
  have b: "sanitizeTextContent ''No description provided'' = ''No description provided''"
    by code_simp
  have "description_of (e_text email) (e_html email) = ''No description provided''"
    using assms(1,2) by (auto simp: description_of_def a b)
  with assms(3) show ?thesis
    by (auto simp: parseEmailToTask_def Let_def split: if_splits)
qed


theorem C8_witness:
  "parseEmailToTask example_clock (example_message ''Call the bank'' (Some []))
     = Inr \<lparr> title = ''Call the bank'', description = ''No description provided'',
             area = ''inbox'', importance = 5, dueDate = None,
             emailSource = \<lparr> sender = ''ann@example.org'', receivedAt = Time 1709210096789,
                              originalSubject = ''Call the bank'' \<rparr> \<rparr>"
proof -
  have t: "e_text (example_message ''Call the bank'' (Some [])) = None
           \<or> e_text (example_message ''Call the bank'' (Some [])) = Some []"
    and h: "e_html (example_message ''Call the bank'' (Some [])) = None
           \<or> e_html (example_message ''Call the bank'' (Some [])) = Some []"
    by (simp_all add: example_message_def)
  have p: "parseEmailToTask example_clock (example_message ''Call the bank'' (Some []))
     = Inr \<lparr> title = ''Call the bank'',
             description = description_of (Some []) None,
             area = ''inbox'', importance = 5, dueDate = None,
             emailSource = \<lparr> sender = ''ann@example.org'', receivedAt = Time 1709210096789,
                              originalSubject = ''Call the bank'' \<rparr> \<rparr>"
  proof -
    have "cleanSubject_of ''Call the bank'' = ''Call the bank''" by code_simp
    moreover have "sanitizeSubject ''Call the bank'' = ''Call the bank''" by code_simp
    moreover have "extractDueDateFromSubject example_clock ''Call the bank'' = None" by code_simp
    moreover have "extractImportanceFromSubject ''Call the bank'' = 5" by code_simp
    moreover have "validateAndSanitizeEmail ''Ann@Example.org'' = Some ''ann@example.org''"
      by code_simp
    ultimately show ?thesis
      by (simp add: parseEmailToTask_def example_message_def)
  qed
  from C8_placeholder_description[OF t h p] p show ?thesis by simp
qed

text \<open>
  C9. The extraction phase never raises. The code does raise: for a body that is an
  object with a property \<open>sender\<close> that is not a string (and none of the properties
  \<open>recipient\<close>, \<open>from\<close>, \<open>to\<close>, \<open>subject\<close>), the standard extraction puts the value
  into \<open>from\<close>, and the log line that follows calls \<open>from.substring\<close>: a \<open>TypeError\<close>.
  The handler answers such a request with the status 500 of its outermost \<open>catch\<close>.
\<close>

theorem C9_extraction_raises:
  "extractEmailData parse (JObj [(''sender'', JNum 42)]) = Inl TypeError
   \<and> processEmailTask parse clk db \<lparr> req_method = POST, req_body = JObj [(''sender'', JNum 42)] \<rparr>
       = (Internal_Error, db)"
proof -
  have "extractEmailData parse (JObj [(''sender'', JNum 42)]) = Inl TypeError"
    by (simp add: extractEmailData_def parse_body_def array_stage_def arraylike_stage_def
        is_numeric_key_def is_digit_def code_def format_stage_def other_stage_def massive_stage_def
        recipient_fields_def js_or_def or3_def substring_ok_def no_fields_def)
  then show ?thesis
    by (simp add: processEmailTask_def)
qed

text \<open>
  C10. The sanitised body text contains no control character (the class
  \<open>[\x00-\x1F\x7F]\<close> of the source), so neither a line feed nor a carriage return, and
  has at most 5000 characters; a control character between two texts disappears and
  leaves them joined. The description of every task produced is such a text.
\<close>

theorem C10_single_line_description:
  "(\<forall>c \<in> set (sanitizeTextContent s). \<not> is_control c)
   \<and> CHR 0x0A \<notin> set (sanitizeTextContent s) \<and> CHR 0x0D \<notin> set (sanitizeTextContent s)
   \<and> length (sanitizeTextContent s) \<le> 5000
   \<and> (is_control x \<longrightarrow> sanitizeTextContent (a @ x # b) = sanitizeTextContent (a @ b))
   \<and> (parseEmailToTask clk email = Inr task \<longrightarrow>
        (\<forall>c \<in> set (description task). \<not> is_control c) \<and> length (description task) \<le> 5000)"
proof -
  have nl: "is_control (CHR 0x0A)" "is_control (CHR 0x0D)"
    by (simp_all add: is_control_def code_def)
  have ph: "\<forall>c \<in> set ''No description provided''. \<not> is_control c"
    by (simp add: is_control_def code_def)
  have d: "(\<forall>c \<in> set (description_of t h). \<not> is_control c) \<and> length (description_of t h) \<le> 5000" for t h
    using ph by (auto simp: description_of_def Let_def sanitize_no_control sanitize_length)
  have "parseEmailToTask clk email = Inr task \<longrightarrow>
        (\<forall>c \<in> set (description task). \<not> is_control c) \<and> length (description task) \<le> 5000"
    using d[of "e_text email" "e_html email"]
    by (auto simp: parseEmailToTask_def Let_def split: if_splits)
  then show ?thesis
    using nl sanitize_no_control[of _ s] sanitize_length[of s] sanitize_drop_control[of x a b]
    by blast
qed

theorem C10_witness:
  "sanitizeTextContent (''first line'' @ CHR 0x0A # ''second line'') = ''first linesecond line''
   \<and> is_control (CHR 0x0A)
   \<and> CHR 0x0A \<notin> set (sanitizeTextContent (''first line'' @ CHR 0x0A # ''second line''))"
proof -
  have e: "sanitizeTextContent (''first line'' @ ''second line'') = ''first linesecond line''"
    by code_simp
  have n: "is_control (CHR 0x0A)"
    by (simp add: is_control_def code_def)
  from C10_single_line_description[of "''first line'' @ CHR 0x0A # ''second line''" "CHR 0x0A"
      "''first line''" "''second line''"] n e
  show ?thesis by simp
qed

end
